theory Spec2Isabelle
  imports Main "HOL-Library.Word"
begin

unbundle bit_operations_syntax

section \<open>Machine types and the helpers of crypto.h\<close>

text \<open>
  The C code works on \<open>uint8_t\<close> and \<open>uint32_t\<close> values; both are words of
  fixed width. Loop counters (\<open>uint_t\<close>) and lengths (\<open>size_t\<close>) are naturals,
  with the wrap-around of an unsigned subtraction written out in \<open>usub32\<close>.
  A buffer given as pointer and length is a list of bytes.
\<close>

type_synonym uint8_t = "8 word"
type_synonym uint32_t = "32 word"

datatype error_t = NO_ERROR | ERROR_INVALID_KEY_LENGTH

text \<open>Subtraction of two \<open>uint_t\<close> values: it wraps around modulo \<open>2^32\<close>.\<close>

definition usub32 :: "nat \<Rightarrow> nat \<Rightarrow> nat" where
  "usub32 a b = (a + 2 ^ 32 - b mod 2 ^ 32) mod 2 ^ 32"

text \<open>
  Checked array accesses: \<open>None\<close> stands for an access outside the array, which is
  undefined behaviour in C.
\<close>

definition rd :: "'a list \<Rightarrow> nat \<Rightarrow> 'a option" where
  "rd xs i = (if i < length xs then Some (xs ! i) else None)"

definition wr :: "'a list \<Rightarrow> nat \<Rightarrow> 'a \<Rightarrow> 'a list option" where
  "wr xs i v = (if i < length xs then Some (xs[i := v]) else None)"

text \<open>
  Modelled from the spec: the rotation macros \<open>ROL32\<close> and \<open>ROR32\<close> of crypto.h,
  which is not among the sources. Section 4.4 of the specification asks for rotations
  of a 32-bit unsigned value by \<open>n \<in> [1,31]\<close> bits.
\<close>

definition ROL32 :: "uint32_t \<Rightarrow> nat \<Rightarrow> uint32_t" where
  "ROL32 a n = push_bit n a OR drop_bit (32 - n) a"

definition ROR32 :: "uint32_t \<Rightarrow> nat \<Rightarrow> uint32_t" where
  "ROR32 a n = drop_bit n a OR push_bit (32 - n) a"

text \<open>
  The host is little-endian (the code's \<open>rotWord\<close> and \<open>rcon\<close> table are written
  for such a host): a \<open>uint32_t\<close> stored in memory has its least significant byte
  first. \<open>load32h\<close> reads four bytes of memory as a host word, \<open>store32h\<close> is the
  byte view of a host word.
\<close>

definition load32h :: "uint8_t list \<Rightarrow> uint32_t" where
  "load32h bs = ucast (bs ! 0) OR push_bit 8 (ucast (bs ! 1)) OR
                push_bit 16 (ucast (bs ! 2)) OR push_bit 24 (ucast (bs ! 3))"

definition store32h :: "uint32_t \<Rightarrow> uint8_t list" where
  "store32h x = [ucast x, ucast (drop_bit 8 x), ucast (drop_bit 16 x), ucast (drop_bit 24 x)]"

text \<open>\<open>memcpy\<close> of \<open>n\<close> words' worth of bytes onto the start of a word array.\<close>

definition memcpy_words :: "uint32_t list \<Rightarrow> uint8_t list \<Rightarrow> nat \<Rightarrow> uint32_t list" where
  "memcpy_words dst src n =
     map (\<lambda>j. load32h (take 4 (drop (4 * j) src))) [0..<n] @ drop n dst"

section \<open>AES (aes.c)\<close>

subsection \<open>Tables\<close>

definition sbox :: "8 word list" where
  "sbox = [
    0x63, 0x7C, 0x77, 0x7B, 0xF2, 0x6B, 0x6F, 0xC5,
    0x30, 0x01, 0x67, 0x2B, 0xFE, 0xD7, 0xAB, 0x76,
    0xCA, 0x82, 0xC9, 0x7D, 0xFA, 0x59, 0x47, 0xF0,
    0xAD, 0xD4, 0xA2, 0xAF, 0x9C, 0xA4, 0x72, 0xC0,
    0xB7, 0xFD, 0x93, 0x26, 0x36, 0x3F, 0xF7, 0xCC,
    0x34, 0xA5, 0xE5, 0xF1, 0x71, 0xD8, 0x31, 0x15,
    0x04, 0xC7, 0x23, 0xC3, 0x18, 0x96, 0x05, 0x9A,
    0x07, 0x12, 0x80, 0xE2, 0xEB, 0x27, 0xB2, 0x75,
    0x09, 0x83, 0x2C, 0x1A, 0x1B, 0x6E, 0x5A, 0xA0,
    0x52, 0x3B, 0xD6, 0xB3, 0x29, 0xE3, 0x2F, 0x84,
    0x53, 0xD1, 0x00, 0xED, 0x20, 0xFC, 0xB1, 0x5B,
    0x6A, 0xCB, 0xBE, 0x39, 0x4A, 0x4C, 0x58, 0xCF,
    0xD0, 0xEF, 0xAA, 0xFB, 0x43, 0x4D, 0x33, 0x85,
    0x45, 0xF9, 0x02, 0x7F, 0x50, 0x3C, 0x9F, 0xA8,
    0x51, 0xA3, 0x40, 0x8F, 0x92, 0x9D, 0x38, 0xF5,
    0xBC, 0xB6, 0xDA, 0x21, 0x10, 0xFF, 0xF3, 0xD2,
    0xCD, 0x0C, 0x13, 0xEC, 0x5F, 0x97, 0x44, 0x17,
    0xC4, 0xA7, 0x7E, 0x3D, 0x64, 0x5D, 0x19, 0x73,
    0x60, 0x81, 0x4F, 0xDC, 0x22, 0x2A, 0x90, 0x88,
    0x46, 0xEE, 0xB8, 0x14, 0xDE, 0x5E, 0x0B, 0xDB,
    0xE0, 0x32, 0x3A, 0x0A, 0x49, 0x06, 0x24, 0x5C,
    0xC2, 0xD3, 0xAC, 0x62, 0x91, 0x95, 0xE4, 0x79,
    0xE7, 0xC8, 0x37, 0x6D, 0x8D, 0xD5, 0x4E, 0xA9,
    0x6C, 0x56, 0xF4, 0xEA, 0x65, 0x7A, 0xAE, 0x08,
    0xBA, 0x78, 0x25, 0x2E, 0x1C, 0xA6, 0xB4, 0xC6,
    0xE8, 0xDD, 0x74, 0x1F, 0x4B, 0xBD, 0x8B, 0x8A,
    0x70, 0x3E, 0xB5, 0x66, 0x48, 0x03, 0xF6, 0x0E,
    0x61, 0x35, 0x57, 0xB9, 0x86, 0xC1, 0x1D, 0x9E,
    0xE1, 0xF8, 0x98, 0x11, 0x69, 0xD9, 0x8E, 0x94,
    0x9B, 0x1E, 0x87, 0xE9, 0xCE, 0x55, 0x28, 0xDF,
    0x8C, 0xA1, 0x89, 0x0D, 0xBF, 0xE6, 0x42, 0x68,
    0x41, 0x99, 0x2D, 0x0F, 0xB0, 0x54, 0xBB, 0x16]"

definition isbox :: "8 word list" where
  "isbox = [
    0x52, 0x09, 0x6A, 0xD5, 0x30, 0x36, 0xA5, 0x38,
    0xBF, 0x40, 0xA3, 0x9E, 0x81, 0xF3, 0xD7, 0xFB,
    0x7C, 0xE3, 0x39, 0x82, 0x9B, 0x2F, 0xFF, 0x87,
    0x34, 0x8E, 0x43, 0x44, 0xC4, 0xDE, 0xE9, 0xCB,
    0x54, 0x7B, 0x94, 0x32, 0xA6, 0xC2, 0x23, 0x3D,
    0xEE, 0x4C, 0x95, 0x0B, 0x42, 0xFA, 0xC3, 0x4E,
    0x08, 0x2E, 0xA1, 0x66, 0x28, 0xD9, 0x24, 0xB2,
    0x76, 0x5B, 0xA2, 0x49, 0x6D, 0x8B, 0xD1, 0x25,
    0x72, 0xF8, 0xF6, 0x64, 0x86, 0x68, 0x98, 0x16,
    0xD4, 0xA4, 0x5C, 0xCC, 0x5D, 0x65, 0xB6, 0x92,
    0x6C, 0x70, 0x48, 0x50, 0xFD, 0xED, 0xB9, 0xDA,
    0x5E, 0x15, 0x46, 0x57, 0xA7, 0x8D, 0x9D, 0x84,
    0x90, 0xD8, 0xAB, 0x00, 0x8C, 0xBC, 0xD3, 0x0A,
    0xF7, 0xE4, 0x58, 0x05, 0xB8, 0xB3, 0x45, 0x06,
    0xD0, 0x2C, 0x1E, 0x8F, 0xCA, 0x3F, 0x0F, 0x02,
    0xC1, 0xAF, 0xBD, 0x03, 0x01, 0x13, 0x8A, 0x6B,
    0x3A, 0x91, 0x11, 0x41, 0x4F, 0x67, 0xDC, 0xEA,
    0x97, 0xF2, 0xCF, 0xCE, 0xF0, 0xB4, 0xE6, 0x73,
    0x96, 0xAC, 0x74, 0x22, 0xE7, 0xAD, 0x35, 0x85,
    0xE2, 0xF9, 0x37, 0xE8, 0x1C, 0x75, 0xDF, 0x6E,
    0x47, 0xF1, 0x1A, 0x71, 0x1D, 0x29, 0xC5, 0x89,
    0x6F, 0xB7, 0x62, 0x0E, 0xAA, 0x18, 0xBE, 0x1B,
    0xFC, 0x56, 0x3E, 0x4B, 0xC6, 0xD2, 0x79, 0x20,
    0x9A, 0xDB, 0xC0, 0xFE, 0x78, 0xCD, 0x5A, 0xF4,
    0x1F, 0xDD, 0xA8, 0x33, 0x88, 0x07, 0xC7, 0x31,
    0xB1, 0x12, 0x10, 0x59, 0x27, 0x80, 0xEC, 0x5F,
    0x60, 0x51, 0x7F, 0xA9, 0x19, 0xB5, 0x4A, 0x0D,
    0x2D, 0xE5, 0x7A, 0x9F, 0x93, 0xC9, 0x9C, 0xEF,
    0xA0, 0xE0, 0x3B, 0x4D, 0xAE, 0x2A, 0xF5, 0xB0,
    0xC8, 0xEB, 0xBB, 0x3C, 0x83, 0x53, 0x99, 0x61,
    0x17, 0x2B, 0x04, 0x7E, 0xBA, 0x77, 0xD6, 0x26,
    0xE1, 0x69, 0x14, 0x63, 0x55, 0x21, 0x0C, 0x7D]"

definition mul2 :: "8 word list" where
  "mul2 = [
    0x00, 0x02, 0x04, 0x06, 0x08, 0x0A, 0x0C, 0x0E,
    0x10, 0x12, 0x14, 0x16, 0x18, 0x1A, 0x1C, 0x1E,
    0x20, 0x22, 0x24, 0x26, 0x28, 0x2A, 0x2C, 0x2E,
    0x30, 0x32, 0x34, 0x36, 0x38, 0x3A, 0x3C, 0x3E,
    0x40, 0x42, 0x44, 0x46, 0x48, 0x4A, 0x4C, 0x4E,
    0x50, 0x52, 0x54, 0x56, 0x58, 0x5A, 0x5C, 0x5E,
    0x60, 0x62, 0x64, 0x66, 0x68, 0x6A, 0x6C, 0x6E,
    0x70, 0x72, 0x74, 0x76, 0x78, 0x7A, 0x7C, 0x7E,
    0x80, 0x82, 0x84, 0x86, 0x88, 0x8A, 0x8C, 0x8E,
    0x90, 0x92, 0x94, 0x96, 0x98, 0x9A, 0x9C, 0x9E,
    0xA0, 0xA2, 0xA4, 0xA6, 0xA8, 0xAA, 0xAC, 0xAE,
    0xB0, 0xB2, 0xB4, 0xB6, 0xB8, 0xBA, 0xBC, 0xBE,
    0xC0, 0xC2, 0xC4, 0xC6, 0xC8, 0xCA, 0xCC, 0xCE,
    0xD0, 0xD2, 0xD4, 0xD6, 0xD8, 0xDA, 0xDC, 0xDE,
    0xE0, 0xE2, 0xE4, 0xE6, 0xE8, 0xEA, 0xEC, 0xEE,
    0xF0, 0xF2, 0xF4, 0xF6, 0xF8, 0xFA, 0xFC, 0xFE,
    0x1B, 0x19, 0x1F, 0x1D, 0x13, 0x11, 0x17, 0x15,
    0x0B, 0x09, 0x0F, 0x0D, 0x03, 0x01, 0x07, 0x05,
    0x3B, 0x39, 0x3F, 0x3D, 0x33, 0x31, 0x37, 0x35,
    0x2B, 0x29, 0x2F, 0x2D, 0x23, 0x21, 0x27, 0x25,
    0x5B, 0x59, 0x5F, 0x5D, 0x53, 0x51, 0x57, 0x55,
    0x4B, 0x49, 0x4F, 0x4D, 0x43, 0x41, 0x47, 0x45,
    0x7B, 0x79, 0x7F, 0x7D, 0x73, 0x71, 0x77, 0x75,
    0x6B, 0x69, 0x6F, 0x6D, 0x63, 0x61, 0x67, 0x65,
    0x9B, 0x99, 0x9F, 0x9D, 0x93, 0x91, 0x97, 0x95,
    0x8B, 0x89, 0x8F, 0x8D, 0x83, 0x81, 0x87, 0x85,
    0xBB, 0xB9, 0xBF, 0xBD, 0xB3, 0xB1, 0xB7, 0xB5,
    0xAB, 0xA9, 0xAF, 0xAD, 0xA3, 0xA1, 0xA7, 0xA5,
    0xDB, 0xD9, 0xDF, 0xDD, 0xD3, 0xD1, 0xD7, 0xD5,
    0xCB, 0xC9, 0xCF, 0xCD, 0xC3, 0xC1, 0xC7, 0xC5,
    0xFB, 0xF9, 0xFF, 0xFD, 0xF3, 0xF1, 0xF7, 0xF5,
    0xEB, 0xE9, 0xEF, 0xED, 0xE3, 0xE1, 0xE7, 0xE5]"

definition rcon :: "32 word list" where
  "rcon = [
    0x00000000, 0x00000001, 0x00000002, 0x00000004,
    0x00000008, 0x00000010, 0x00000020, 0x00000040,
    0x00000080, 0x0000001B, 0x00000036]"

subsection \<open>Context and state\<close>

text \<open>
  Modelled from the spec: the declaration of \<open>AesContext\<close> lives in aes.h, which is
  not among the sources. By section 3 of the specification it holds the round count
  \<open>nr\<close> and the key schedule \<open>w\<close>, an array of 32-bit words in host byte order
  (at most 60 of them). The fields are prefixed because \<open>CamelliaContext\<close> has
  an \<open>nr\<close> field too.

  \<open>AesState\<close> is a union of sixteen bytes \<open>b\<close> and four words \<open>w\<close> sharing
  storage. The model keeps the bytes; \<open>state_w\<close> and \<open>state_w_update\<close> are the
  word view on the little-endian host.
\<close>

record AesContext =
  aes_nr :: nat
  aes_w :: "uint32_t list"

type_synonym AesState = "uint8_t list"

definition AES_BLOCK_SIZE :: nat where
  "AES_BLOCK_SIZE = 16"

definition state_w :: "AesState \<Rightarrow> nat \<Rightarrow> uint32_t" where
  "state_w state j = load32h (take 4 (drop (4 * j) state))"

definition state_w_update :: "AesState \<Rightarrow> nat \<Rightarrow> uint32_t \<Rightarrow> AesState" where
  "state_w_update state j x = take (4 * j) state @ store32h x @ drop (4 * j + 4) state"

subsection \<open>Transformations\<close>

definition rotWord :: "uint32_t \<Rightarrow> uint32_t" where
  "rotWord x = ROR32 x 8"

definition subWord :: "uint32_t \<Rightarrow> uint32_t" where
  "subWord x =
     (let p = store32h x;
          p = p[0 := sbox ! unat (p ! 0)];
          p = p[1 := sbox ! unat (p ! 1)];
          p = p[2 := sbox ! unat (p ! 2)];
          p = p[3 := sbox ! unat (p ! 3)]
      in load32h p)"

text \<open>The second argument is the pointer \<open>k\<close>, given as the array it points into
  and the offset of its first word.\<close>

definition addRoundKey :: "AesState \<Rightarrow> uint32_t list \<Rightarrow> nat \<Rightarrow> AesState" where
  "addRoundKey state kw off =
     (let state = state_w_update state 0 (state_w state 0 XOR kw ! (off + 0));
          state = state_w_update state 1 (state_w state 1 XOR kw ! (off + 1));
          state = state_w_update state 2 (state_w state 2 XOR kw ! (off + 2));
          state = state_w_update state 3 (state_w state 3 XOR kw ! (off + 3))
      in state)"

definition subBytes :: "AesState \<Rightarrow> AesState" where
  "subBytes state = fold (\<lambda>i s. s[i := sbox ! unat (s ! i)]) [0..<16] state"

definition invSubBytes :: "AesState \<Rightarrow> AesState" where
  "invSubBytes state = fold (\<lambda>i s. s[i := isbox ! unat (s ! i)]) [0..<16] state"

definition shiftRows :: "AesState \<Rightarrow> AesState" where
  "shiftRows state =
     (let temp = state ! 1;
          state = state[1 := state ! 5];
          state = state[5 := state ! 9];
          state = state[9 := state ! 13];
          state = state[13 := temp];
          temp = state ! 2;
          state = state[2 := state ! 10];
          state = state[10 := temp];
          temp = state ! 6;
          state = state[6 := state ! 14];
          state = state[14 := temp];
          temp = state ! 3;
          state = state[3 := state ! 15];
          state = state[15 := state ! 11];
          state = state[11 := state ! 7];
          state = state[7 := temp]
      in state)"

definition invShiftRows :: "AesState \<Rightarrow> AesState" where
  "invShiftRows state =
     (let temp = state ! 1;
          state = state[1 := state ! 13];
          state = state[13 := state ! 9];
          state = state[9 := state ! 5];
          state = state[5 := temp];
          temp = state ! 2;
          state = state[2 := state ! 10];
          state = state[10 := temp];
          temp = state ! 6;
          state = state[6 := state ! 14];
          state = state[14 := temp];
          temp = state ! 3;
          state = state[3 := state ! 7];
          state = state[7 := state ! 11];
          state = state[11 := state ! 15];
          state = state[15 := temp]
      in state)"

text \<open>One iteration of the column loop of \<open>mixColumns\<close>, at column offset \<open>i\<close>.\<close>

definition mixColumn :: "nat \<Rightarrow> AesState \<Rightarrow> AesState" where
  "mixColumn i state =
     (let b0 = state ! (i + 0);
          b1 = state ! (i + 1);
          b2 = state ! (i + 2);
          b3 = state ! (i + 3);
          p = b0 XOR b1 XOR b2 XOR b3;
          state = state[i + 0 := p XOR b0 XOR mul2 ! unat (b0 XOR b1)];
          state = state[i + 1 := p XOR b1 XOR mul2 ! unat (b1 XOR b2)];
          state = state[i + 2 := p XOR b2 XOR mul2 ! unat (b2 XOR b3)];
          state = state[i + 3 := p XOR b3 XOR mul2 ! unat (b3 XOR b0)]
      in state)"

definition mixColumns :: "AesState \<Rightarrow> AesState" where
  "mixColumns state = fold mixColumn [0, 4, 8, 12] state"

text \<open>One iteration of the column loop of \<open>invMixColumns\<close>.\<close>

definition invMixColumn :: "nat \<Rightarrow> AesState \<Rightarrow> AesState" where
  "invMixColumn i state =
     (let b0 = state ! (i + 0);
          b1 = state ! (i + 1);
          b2 = state ! (i + 2);
          b3 = state ! (i + 3);
          q = b0 XOR b1 XOR b2 XOR b3;
          q = q XOR mul2 ! unat (mul2 ! unat (mul2 ! unat q));
          p = q XOR mul2 ! unat (mul2 ! unat (b0 XOR b2));
          q = q XOR mul2 ! unat (mul2 ! unat (b1 XOR b3));
          state = state[i + 0 := p XOR b0 XOR mul2 ! unat (b0 XOR b1)];
          state = state[i + 1 := q XOR b1 XOR mul2 ! unat (b1 XOR b2)];
          state = state[i + 2 := p XOR b2 XOR mul2 ! unat (b2 XOR b3)];
          state = state[i + 3 := q XOR b3 XOR mul2 ! unat (b3 XOR b0)]
      in state)"

definition invMixColumns :: "AesState \<Rightarrow> AesState" where
  "invMixColumns state = fold invMixColumn [0, 4, 8, 12] state"

subsection \<open>Key expansion\<close>

text \<open>
  The value added to \<open>w[i - keyLength]\<close> in one iteration of the key expansion loop,
  from the saved previous word \<open>temp\<close>. The read of \<open>rcon\<close> is checked.
\<close>

definition aesKeyTemp :: "nat \<Rightarrow> nat \<Rightarrow> uint32_t \<Rightarrow> uint32_t option" where
  "aesKeyTemp keyLength i temp =
     (if i mod keyLength = 0 then
        (case rd rcon (i div keyLength) of
           None \<Rightarrow> None
         | Some rc \<Rightarrow> Some (subWord (rotWord temp) XOR rc))
      else if keyLength > 6 \<and> i mod keyLength = 4 then Some (subWord temp)
      else Some temp)"

text \<open>
  The loop \<open>for(i = keyLength; i < keyScheduleSize; i++)\<close> of \<open>aesInit\<close>, started at
  \<open>i\<close>. Every access to \<open>w\<close> and \<open>rcon\<close> is checked against the array; the
  indices \<open>i - 1\<close> and \<open>i - keyLength\<close> are unsigned subtractions.
\<close>

function aesKeyExpansion :: "nat \<Rightarrow> nat \<Rightarrow> nat \<Rightarrow> uint32_t list \<Rightarrow> uint32_t list option" where
  "aesKeyExpansion keyLength keyScheduleSize i w =
     (if i < keyScheduleSize then
        (case rd w (usub32 i 1) of
           None \<Rightarrow> None
         | Some temp0 \<Rightarrow>
             (case aesKeyTemp keyLength i temp0 of
                None \<Rightarrow> None
              | Some temp \<Rightarrow>
                  (case rd w (usub32 i keyLength) of
                     None \<Rightarrow> None
                   | Some prev \<Rightarrow>
                       (case wr w i (prev XOR temp) of
                          None \<Rightarrow> None
                        | Some w' \<Rightarrow> aesKeyExpansion keyLength keyScheduleSize (i + 1) w'))))
      else Some w)"
  by pat_completeness auto
termination
  by (relation "measure (\<lambda>(keyLength, keyScheduleSize, i, w). keyScheduleSize - i)") auto

declare aesKeyExpansion.simps [simp del]

text \<open>
  The part of \<open>aesInit\<close> after the round count is set: the copy of the key (checked
  against the size of \<open>w\<close>) and the expansion loop.
\<close>

definition aesInitSchedule :: "AesContext \<Rightarrow> uint8_t list \<Rightarrow> (error_t \<times> AesContext) option" where
  "aesInitSchedule context key =
     (let keyLength = length key in
      if length (aes_w context) < keyLength div 4 then None
      else
        (let w = memcpy_words (aes_w context) key (keyLength div 4);
             keyLength = keyLength div 4;
             keyScheduleSize = 4 * (aes_nr context + 1)
         in case aesKeyExpansion keyLength keyScheduleSize keyLength w of
              None \<Rightarrow> None
            | Some w' \<Rightarrow> Some (NO_ERROR, context\<lparr>aes_w := w'\<rparr>)))"

text \<open>
  \<open>aesInit\<close>: the key is the buffer \<open>key\<close> of \<open>keyLength = length key\<close> bytes. The
  result is the error code and the context as the call leaves it; \<open>None\<close> is an
  access outside an array.
\<close>

definition aesInit :: "AesContext \<Rightarrow> uint8_t list \<Rightarrow> (error_t \<times> AesContext) option" where
  "aesInit context key =
     (let keyLength = length key in
      if keyLength = 16 then aesInitSchedule (context\<lparr>aes_nr := 10\<rparr>) key
      else if keyLength = 24 then aesInitSchedule (context\<lparr>aes_nr := 12\<rparr>) key
      else if keyLength = 32 then aesInitSchedule (context\<lparr>aes_nr := 14\<rparr>) key
      else Some (ERROR_INVALID_KEY_LENGTH, context))"

subsection \<open>Block encryption and decryption\<close>

text \<open>The loop \<open>for(i = 1; i < context->nr; i++)\<close> of \<open>aesEncryptBlock\<close>, started at \<open>i\<close>.\<close>

function aesEncryptRounds :: "AesContext \<Rightarrow> nat \<Rightarrow> AesState \<Rightarrow> AesState" where
  "aesEncryptRounds context i state =
     (if i < aes_nr context then
        aesEncryptRounds context (i + 1)
          (addRoundKey (mixColumns (shiftRows (subBytes state))) (aes_w context) (4 * i))
      else state)"
  by pat_completeness auto
termination
  by (relation "measure (\<lambda>(context, i, state). aes_nr context - i)") auto

declare aesEncryptRounds.simps [simp del]

text \<open>
  The block functions return the context as they leave it together with the sixteen
  bytes written to \<open>output\<close>.
\<close>

definition aesEncryptBlock :: "AesContext \<Rightarrow> uint8_t list \<Rightarrow> AesContext \<times> uint8_t list" where
  "aesEncryptBlock context input =
     (let state = take AES_BLOCK_SIZE input;
          state = addRoundKey state (aes_w context) 0;
          state = aesEncryptRounds context 1 state;
          state = subBytes state;
          state = shiftRows state;
          state = addRoundKey state (aes_w context) (4 * aes_nr context)
      in (context, take AES_BLOCK_SIZE state))"

text \<open>
  The loop \<open>for(i = context->nr - 1; i >= 1; i--)\<close> of \<open>aesDecryptBlock\<close>, started
  at \<open>i\<close>: it stops when the counter reaches 0.
\<close>

fun aesDecryptRounds :: "AesContext \<Rightarrow> nat \<Rightarrow> AesState \<Rightarrow> AesState" where
  "aesDecryptRounds context 0 state = state"
| "aesDecryptRounds context (Suc j) state =
     aesDecryptRounds context j
       (invMixColumns
          (addRoundKey (invSubBytes (invShiftRows state)) (aes_w context) (4 * Suc j)))"

definition aesDecryptBlock :: "AesContext \<Rightarrow> uint8_t list \<Rightarrow> AesContext \<times> uint8_t list" where
  "aesDecryptBlock context input =
     (let state = take AES_BLOCK_SIZE input;
          state = addRoundKey state (aes_w context) (4 * aes_nr context);
          state = aesDecryptRounds context (usub32 (aes_nr context) 1) state;
          state = invShiftRows state;
          state = invSubBytes state;
          state = addRoundKey state (aes_w context) 0
      in (context, take AES_BLOCK_SIZE state))"

section \<open>Camellia (camellia.c)\<close>

subsection \<open>Byte order helpers\<close>

text \<open>
  Modelled from the spec: the macros \<open>LOAD32BE\<close>, \<open>STORE32BE\<close> and \<open>betoh32\<close>
  of crypto.h, which is not among the sources. By sections 4.3 and 4.4 of the
  specification the first two read and write a 32-bit word as four bytes in big-endian
  order, and \<open>betoh32\<close> converts a word from big-endian storage to host order: it
  reads the bytes the word occupies in memory as a big-endian word.
\<close>

definition LOAD32BE :: "uint8_t list \<Rightarrow> uint32_t" where
  "LOAD32BE p = push_bit 24 (ucast (p ! 0)) OR push_bit 16 (ucast (p ! 1)) OR
                push_bit 8 (ucast (p ! 2)) OR ucast (p ! 3)"

definition STORE32BE :: "uint32_t \<Rightarrow> uint8_t list" where
  "STORE32BE a = [ucast (drop_bit 24 a), ucast (drop_bit 16 a), ucast (drop_bit 8 a), ucast a]"

definition betoh32 :: "uint32_t \<Rightarrow> uint32_t" where
  "betoh32 x = LOAD32BE (store32h x)"

subsection \<open>Key schedule constants and tables\<close>

definition KL :: nat where "KL = 0"
definition KR :: nat where "KR = 4"
definition KA :: nat where "KA = 8"
definition KB :: nat where "KB = 12"
definition L :: nat where "L = 0"
definition R :: nat where "R = 64"

text \<open>
  Modelled from the spec: the declaration of \<open>CamelliaSubkey\<close> lives in camellia.h,
  which is not among the sources. The table rows and their use in \<open>camelliaInit\<close>
  give its four fields in order: index, key, shift, position.
\<close>

datatype CamelliaSubkey =
  CamelliaSubkey (sk_index: nat) (sk_key: nat) (sk_shift: nat) (sk_position: nat)

definition ks1 :: "CamelliaSubkey list" where
  "ks1 = [
    CamelliaSubkey 0 KL 0 L,
    CamelliaSubkey 2 KL 0 R,
    CamelliaSubkey 4 KA 0 L,
    CamelliaSubkey 6 KA 0 R,
    CamelliaSubkey 8 KL 15 L,
    CamelliaSubkey 10 KL 15 R,
    CamelliaSubkey 12 KA 15 L,
    CamelliaSubkey 14 KA 15 R,
    CamelliaSubkey 16 KA 30 L,
    CamelliaSubkey 18 KA 30 R,
    CamelliaSubkey 20 KL 45 L,
    CamelliaSubkey 22 KL 45 R,
    CamelliaSubkey 24 KA 45 L,
    CamelliaSubkey 26 KL 60 R,
    CamelliaSubkey 28 KA 60 L,
    CamelliaSubkey 30 KA 60 R,
    CamelliaSubkey 32 KL 77 L,
    CamelliaSubkey 34 KL 77 R,
    CamelliaSubkey 36 KL 94 L,
    CamelliaSubkey 38 KL 94 R,
    CamelliaSubkey 40 KA 94 L,
    CamelliaSubkey 42 KA 94 R,
    CamelliaSubkey 44 KL 111 L,
    CamelliaSubkey 46 KL 111 R,
    CamelliaSubkey 48 KA 111 L,
    CamelliaSubkey 50 KA 111 R]"

definition ks2 :: "CamelliaSubkey list" where
  "ks2 = [
    CamelliaSubkey 0 KL 0 L,
    CamelliaSubkey 2 KL 0 R,
    CamelliaSubkey 4 KB 0 L,
    CamelliaSubkey 6 KB 0 R,
    CamelliaSubkey 8 KR 15 L,
    CamelliaSubkey 10 KR 15 R,
    CamelliaSubkey 12 KA 15 L,
    CamelliaSubkey 14 KA 15 R,
    CamelliaSubkey 16 KR 30 L,
    CamelliaSubkey 18 KR 30 R,
    CamelliaSubkey 20 KB 30 L,
    CamelliaSubkey 22 KB 30 R,
    CamelliaSubkey 24 KL 45 L,
    CamelliaSubkey 26 KL 45 R,
    CamelliaSubkey 28 KA 45 L,
    CamelliaSubkey 30 KA 45 R,
    CamelliaSubkey 32 KL 60 L,
    CamelliaSubkey 34 KL 60 R,
    CamelliaSubkey 36 KR 60 L,
    CamelliaSubkey 38 KR 60 R,
    CamelliaSubkey 40 KB 60 L,
    CamelliaSubkey 42 KB 60 R,
    CamelliaSubkey 44 KL 77 L,
    CamelliaSubkey 46 KL 77 R,
    CamelliaSubkey 48 KA 77 L,
    CamelliaSubkey 50 KA 77 R,
    CamelliaSubkey 52 KR 94 L,
    CamelliaSubkey 54 KR 94 R,
    CamelliaSubkey 56 KA 94 L,
    CamelliaSubkey 58 KA 94 R,
    CamelliaSubkey 60 KL 111 L,
    CamelliaSubkey 62 KL 111 R,
    CamelliaSubkey 64 KB 111 L,
    CamelliaSubkey 66 KB 111 R]"

definition sigma :: "32 word list" where
  "sigma = [
    0xA09E667F, 0x3BCC908B,
    0xB67AE858, 0x4CAA73B2,
    0xC6EF372F, 0xE94F82BE,
    0x54FF53A5, 0xF1D36F1C,
    0x10E527FA, 0xDE682D1D,
    0xB05688C2, 0xB3E6C1FD]"

definition sbox1 :: "8 word list" where
  "sbox1 = [
    0x70, 0x82, 0x2C, 0xEC, 0xB3, 0x27, 0xC0, 0xE5,
    0xE4, 0x85, 0x57, 0x35, 0xEA, 0x0C, 0xAE, 0x41,
    0x23, 0xEF, 0x6B, 0x93, 0x45, 0x19, 0xA5, 0x21,
    0xED, 0x0E, 0x4F, 0x4E, 0x1D, 0x65, 0x92, 0xBD,
    0x86, 0xB8, 0xAF, 0x8F, 0x7C, 0xEB, 0x1F, 0xCE,
    0x3E, 0x30, 0xDC, 0x5F, 0x5E, 0xC5, 0x0B, 0x1A,
    0xA6, 0xE1, 0x39, 0xCA, 0xD5, 0x47, 0x5D, 0x3D,
    0xD9, 0x01, 0x5A, 0xD6, 0x51, 0x56, 0x6C, 0x4D,
    0x8B, 0x0D, 0x9A, 0x66, 0xFB, 0xCC, 0xB0, 0x2D,
    0x74, 0x12, 0x2B, 0x20, 0xF0, 0xB1, 0x84, 0x99,
    0xDF, 0x4C, 0xCB, 0xC2, 0x34, 0x7E, 0x76, 0x05,
    0x6D, 0xB7, 0xA9, 0x31, 0xD1, 0x17, 0x04, 0xD7,
    0x14, 0x58, 0x3A, 0x61, 0xDE, 0x1B, 0x11, 0x1C,
    0x32, 0x0F, 0x9C, 0x16, 0x53, 0x18, 0xF2, 0x22,
    0xFE, 0x44, 0xCF, 0xB2, 0xC3, 0xB5, 0x7A, 0x91,
    0x24, 0x08, 0xE8, 0xA8, 0x60, 0xFC, 0x69, 0x50,
    0xAA, 0xD0, 0xA0, 0x7D, 0xA1, 0x89, 0x62, 0x97,
    0x54, 0x5B, 0x1E, 0x95, 0xE0, 0xFF, 0x64, 0xD2,
    0x10, 0xC4, 0x00, 0x48, 0xA3, 0xF7, 0x75, 0xDB,
    0x8A, 0x03, 0xE6, 0xDA, 0x09, 0x3F, 0xDD, 0x94,
    0x87, 0x5C, 0x83, 0x02, 0xCD, 0x4A, 0x90, 0x33,
    0x73, 0x67, 0xF6, 0xF3, 0x9D, 0x7F, 0xBF, 0xE2,
    0x52, 0x9B, 0xD8, 0x26, 0xC8, 0x37, 0xC6, 0x3B,
    0x81, 0x96, 0x6F, 0x4B, 0x13, 0xBE, 0x63, 0x2E,
    0xE9, 0x79, 0xA7, 0x8C, 0x9F, 0x6E, 0xBC, 0x8E,
    0x29, 0xF5, 0xF9, 0xB6, 0x2F, 0xFD, 0xB4, 0x59,
    0x78, 0x98, 0x06, 0x6A, 0xE7, 0x46, 0x71, 0xBA,
    0xD4, 0x25, 0xAB, 0x42, 0x88, 0xA2, 0x8D, 0xFA,
    0x72, 0x07, 0xB9, 0x55, 0xF8, 0xEE, 0xAC, 0x0A,
    0x36, 0x49, 0x2A, 0x68, 0x3C, 0x38, 0xF1, 0xA4,
    0x40, 0x28, 0xD3, 0x7B, 0xBB, 0xC9, 0x43, 0xC1,
    0x15, 0xE3, 0xAD, 0xF4, 0x77, 0xC7, 0x80, 0x9E]"

definition sbox2 :: "8 word list" where
  "sbox2 = [
    0xE0, 0x05, 0x58, 0xD9, 0x67, 0x4E, 0x81, 0xCB,
    0xC9, 0x0B, 0xAE, 0x6A, 0xD5, 0x18, 0x5D, 0x82,
    0x46, 0xDF, 0xD6, 0x27, 0x8A, 0x32, 0x4B, 0x42,
    0xDB, 0x1C, 0x9E, 0x9C, 0x3A, 0xCA, 0x25, 0x7B,
    0x0D, 0x71, 0x5F, 0x1F, 0xF8, 0xD7, 0x3E, 0x9D,
    0x7C, 0x60, 0xB9, 0xBE, 0xBC, 0x8B, 0x16, 0x34,
    0x4D, 0xC3, 0x72, 0x95, 0xAB, 0x8E, 0xBA, 0x7A,
    0xB3, 0x02, 0xB4, 0xAD, 0xA2, 0xAC, 0xD8, 0x9A,
    0x17, 0x1A, 0x35, 0xCC, 0xF7, 0x99, 0x61, 0x5A,
    0xE8, 0x24, 0x56, 0x40, 0xE1, 0x63, 0x09, 0x33,
    0xBF, 0x98, 0x97, 0x85, 0x68, 0xFC, 0xEC, 0x0A,
    0xDA, 0x6F, 0x53, 0x62, 0xA3, 0x2E, 0x08, 0xAF,
    0x28, 0xB0, 0x74, 0xC2, 0xBD, 0x36, 0x22, 0x38,
    0x64, 0x1E, 0x39, 0x2C, 0xA6, 0x30, 0xE5, 0x44,
    0xFD, 0x88, 0x9F, 0x65, 0x87, 0x6B, 0xF4, 0x23,
    0x48, 0x10, 0xD1, 0x51, 0xC0, 0xF9, 0xD2, 0xA0,
    0x55, 0xA1, 0x41, 0xFA, 0x43, 0x13, 0xC4, 0x2F,
    0xA8, 0xB6, 0x3C, 0x2B, 0xC1, 0xFF, 0xC8, 0xA5,
    0x20, 0x89, 0x00, 0x90, 0x47, 0xEF, 0xEA, 0xB7,
    0x15, 0x06, 0xCD, 0xB5, 0x12, 0x7E, 0xBB, 0x29,
    0x0F, 0xB8, 0x07, 0x04, 0x9B, 0x94, 0x21, 0x66,
    0xE6, 0xCE, 0xED, 0xE7, 0x3B, 0xFE, 0x7F, 0xC5,
    0xA4, 0x37, 0xB1, 0x4C, 0x91, 0x6E, 0x8D, 0x76,
    0x03, 0x2D, 0xDE, 0x96, 0x26, 0x7D, 0xC6, 0x5C,
    0xD3, 0xF2, 0x4F, 0x19, 0x3F, 0xDC, 0x79, 0x1D,
    0x52, 0xEB, 0xF3, 0x6D, 0x5E, 0xFB, 0x69, 0xB2,
    0xF0, 0x31, 0x0C, 0xD4, 0xCF, 0x8C, 0xE2, 0x75,
    0xA9, 0x4A, 0x57, 0x84, 0x11, 0x45, 0x1B, 0xF5,
    0xE4, 0x0E, 0x73, 0xAA, 0xF1, 0xDD, 0x59, 0x14,
    0x6C, 0x92, 0x54, 0xD0, 0x78, 0x70, 0xE3, 0x49,
    0x80, 0x50, 0xA7, 0xF6, 0x77, 0x93, 0x86, 0x83,
    0x2A, 0xC7, 0x5B, 0xE9, 0xEE, 0x8F, 0x01, 0x3D]"

definition sbox3 :: "8 word list" where
  "sbox3 = [
    0x38, 0x41, 0x16, 0x76, 0xD9, 0x93, 0x60, 0xF2,
    0x72, 0xC2, 0xAB, 0x9A, 0x75, 0x06, 0x57, 0xA0,
    0x91, 0xF7, 0xB5, 0xC9, 0xA2, 0x8C, 0xD2, 0x90,
    0xF6, 0x07, 0xA7, 0x27, 0x8E, 0xB2, 0x49, 0xDE,
    0x43, 0x5C, 0xD7, 0xC7, 0x3E, 0xF5, 0x8F, 0x67,
    0x1F, 0x18, 0x6E, 0xAF, 0x2F, 0xE2, 0x85, 0x0D,
    0x53, 0xF0, 0x9C, 0x65, 0xEA, 0xA3, 0xAE, 0x9E,
    0xEC, 0x80, 0x2D, 0x6B, 0xA8, 0x2B, 0x36, 0xA6,
    0xC5, 0x86, 0x4D, 0x33, 0xFD, 0x66, 0x58, 0x96,
    0x3A, 0x09, 0x95, 0x10, 0x78, 0xD8, 0x42, 0xCC,
    0xEF, 0x26, 0xE5, 0x61, 0x1A, 0x3F, 0x3B, 0x82,
    0xB6, 0xDB, 0xD4, 0x98, 0xE8, 0x8B, 0x02, 0xEB,
    0x0A, 0x2C, 0x1D, 0xB0, 0x6F, 0x8D, 0x88, 0x0E,
    0x19, 0x87, 0x4E, 0x0B, 0xA9, 0x0C, 0x79, 0x11,
    0x7F, 0x22, 0xE7, 0x59, 0xE1, 0xDA, 0x3D, 0xC8,
    0x12, 0x04, 0x74, 0x54, 0x30, 0x7E, 0xB4, 0x28,
    0x55, 0x68, 0x50, 0xBE, 0xD0, 0xC4, 0x31, 0xCB,
    0x2A, 0xAD, 0x0F, 0xCA, 0x70, 0xFF, 0x32, 0x69,
    0x08, 0x62, 0x00, 0x24, 0xD1, 0xFB, 0xBA, 0xED,
    0x45, 0x81, 0x73, 0x6D, 0x84, 0x9F, 0xEE, 0x4A,
    0xC3, 0x2E, 0xC1, 0x01, 0xE6, 0x25, 0x48, 0x99,
    0xB9, 0xB3, 0x7B, 0xF9, 0xCE, 0xBF, 0xDF, 0x71,
    0x29, 0xCD, 0x6C, 0x13, 0x64, 0x9B, 0x63, 0x9D,
    0xC0, 0x4B, 0xB7, 0xA5, 0x89, 0x5F, 0xB1, 0x17,
    0xF4, 0xBC, 0xD3, 0x46, 0xCF, 0x37, 0x5E, 0x47,
    0x94, 0xFA, 0xFC, 0x5B, 0x97, 0xFE, 0x5A, 0xAC,
    0x3C, 0x4C, 0x03, 0x35, 0xF3, 0x23, 0xB8, 0x5D,
    0x6A, 0x92, 0xD5, 0x21, 0x44, 0x51, 0xC6, 0x7D,
    0x39, 0x83, 0xDC, 0xAA, 0x7C, 0x77, 0x56, 0x05,
    0x1B, 0xA4, 0x15, 0x34, 0x1E, 0x1C, 0xF8, 0x52,
    0x20, 0x14, 0xE9, 0xBD, 0xDD, 0xE4, 0xA1, 0xE0,
    0x8A, 0xF1, 0xD6, 0x7A, 0xBB, 0xE3, 0x40, 0x4F]"

definition sbox4 :: "8 word list" where
  "sbox4 = [
    0x70, 0x2C, 0xB3, 0xC0, 0xE4, 0x57, 0xEA, 0xAE,
    0x23, 0x6B, 0x45, 0xA5, 0xED, 0x4F, 0x1D, 0x92,
    0x86, 0xAF, 0x7C, 0x1F, 0x3E, 0xDC, 0x5E, 0x0B,
    0xA6, 0x39, 0xD5, 0x5D, 0xD9, 0x5A, 0x51, 0x6C,
    0x8B, 0x9A, 0xFB, 0xB0, 0x74, 0x2B, 0xF0, 0x84,
    0xDF, 0xCB, 0x34, 0x76, 0x6D, 0xA9, 0xD1, 0x04,
    0x14, 0x3A, 0xDE, 0x11, 0x32, 0x9C, 0x53, 0xF2,
    0xFE, 0xCF, 0xC3, 0x7A, 0x24, 0xE8, 0x60, 0x69,
    0xAA, 0xA0, 0xA1, 0x62, 0x54, 0x1E, 0xE0, 0x64,
    0x10, 0x00, 0xA3, 0x75, 0x8A, 0xE6, 0x09, 0xDD,
    0x87, 0x83, 0xCD, 0x90, 0x73, 0xF6, 0x9D, 0xBF,
    0x52, 0xD8, 0xC8, 0xC6, 0x81, 0x6F, 0x13, 0x63,
    0xE9, 0xA7, 0x9F, 0xBC, 0x29, 0xF9, 0x2F, 0xB4,
    0x78, 0x06, 0xE7, 0x71, 0xD4, 0xAB, 0x88, 0x8D,
    0x72, 0xB9, 0xF8, 0xAC, 0x36, 0x2A, 0x3C, 0xF1,
    0x40, 0xD3, 0xBB, 0x43, 0x15, 0xAD, 0x77, 0x80,
    0x82, 0xEC, 0x27, 0xE5, 0x85, 0x35, 0x0C, 0x41,
    0xEF, 0x93, 0x19, 0x21, 0x0E, 0x4E, 0x65, 0xBD,
    0xB8, 0x8F, 0xEB, 0xCE, 0x30, 0x5F, 0xC5, 0x1A,
    0xE1, 0xCA, 0x47, 0x3D, 0x01, 0xD6, 0x56, 0x4D,
    0x0D, 0x66, 0xCC, 0x2D, 0x12, 0x20, 0xB1, 0x99,
    0x4C, 0xC2, 0x7E, 0x05, 0xB7, 0x31, 0x17, 0xD7,
    0x58, 0x61, 0x1B, 0x1C, 0x0F, 0x16, 0x18, 0x22,
    0x44, 0xB2, 0xB5, 0x91, 0x08, 0xA8, 0xFC, 0x50,
    0xD0, 0x7D, 0x89, 0x97, 0x5B, 0x95, 0xFF, 0xD2,
    0xC4, 0x48, 0xF7, 0xDB, 0x03, 0xDA, 0x3F, 0x94,
    0x5C, 0x02, 0x4A, 0x33, 0x67, 0xF3, 0x7F, 0xE2,
    0x9B, 0x26, 0x37, 0x3B, 0x96, 0x4B, 0xBE, 0x2E,
    0x79, 0x8C, 0x6E, 0x8E, 0xF5, 0xB6, 0xFD, 0x59,
    0x98, 0x6A, 0x46, 0xBA, 0x25, 0x42, 0xA2, 0xFA,
    0x07, 0x55, 0xEE, 0x0A, 0x49, 0x68, 0x38, 0xA4,
    0x28, 0x7B, 0xC9, 0xC1, 0xE3, 0xF4, 0xC7, 0x9E]"

subsection \<open>Context\<close>

text \<open>
  Modelled from the spec: the declaration of \<open>CamelliaContext\<close> lives in camellia.h,
  which is not among the sources. By section 3 of the specification it holds the round
  count \<open>nr\<close>, the sixteen words \<open>k\<close> of key material (the banks KL, KR, KA and
  KB) and the subkey array \<open>ks\<close> of 68 words.
\<close>

record CamelliaContext =
  cam_nr :: nat
  cam_k :: "uint32_t list"
  cam_ks :: "uint32_t list"

definition CAMELLIA_BLOCK_SIZE :: nat where
  "CAMELLIA_BLOCK_SIZE = 16"

subsection \<open>The macros\<close>

text \<open>
  A macro that assigns to its arguments is a function from the values of these
  arguments before to their values after. \<open>CAMELLIA_F\<close> is never expanded in the
  file and is left out.
\<close>

definition CAMELLIA_S :: "uint32_t \<times> uint32_t \<Rightarrow> uint32_t \<times> uint32_t" where
  "CAMELLIA_S z =
     (case z of (zl, zr) \<Rightarrow>
       (push_bit 24 (ucast (sbox1 ! unat (drop_bit 24 zl AND 0xFF))) OR
        push_bit 16 (ucast (sbox2 ! unat (drop_bit 16 zl AND 0xFF))) OR
        push_bit 8 (ucast (sbox3 ! unat (drop_bit 8 zl AND 0xFF))) OR
        ucast (sbox4 ! unat (zl AND 0xFF)),
        push_bit 24 (ucast (sbox2 ! unat (drop_bit 24 zr AND 0xFF))) OR
        push_bit 16 (ucast (sbox3 ! unat (drop_bit 16 zr AND 0xFF))) OR
        push_bit 8 (ucast (sbox4 ! unat (drop_bit 8 zr AND 0xFF))) OR
        ucast (sbox1 ! unat (zr AND 0xFF))))"

definition CAMELLIA_P :: "uint32_t \<times> uint32_t \<Rightarrow> uint32_t \<times> uint32_t" where
  "CAMELLIA_P z =
     (case z of (zl, zr) \<Rightarrow>
       (let zl = zl XOR ROL32 zr 8;
            zr = zr XOR ROL32 zl 16;
            zl = zl XOR ROR32 zr 8;
            zr = zr XOR ROR32 zl 8
        in (zl, zr)))"

text \<open>The result lists the new values of \<open>left1\<close>, \<open>left2\<close>, \<open>right1\<close> and \<open>right2\<close>.\<close>

definition CAMELLIA_ROUND ::
  "uint32_t \<times> uint32_t \<times> uint32_t \<times> uint32_t \<Rightarrow> uint32_t \<Rightarrow> uint32_t \<Rightarrow>
   uint32_t \<times> uint32_t \<times> uint32_t \<times> uint32_t" where
  "CAMELLIA_ROUND s k1 k2 =
     (case s of (left1, left2, right1, right2) \<Rightarrow>
       (let temp1 = left1 XOR k1;
            temp2 = left2 XOR k2;
            (temp1, temp2) = CAMELLIA_S (temp1, temp2);
            (temp1, temp2) = CAMELLIA_P (temp1, temp2);
            temp1 = temp1 XOR right2;
            temp2 = temp2 XOR right1;
            right1 = left1;
            right2 = left2;
            left1 = temp2;
            left2 = temp1
        in (left1, left2, right1, right2)))"

definition CAMELLIA_FL :: "uint32_t \<times> uint32_t \<Rightarrow> uint32_t \<Rightarrow> uint32_t \<Rightarrow> uint32_t \<times> uint32_t" where
  "CAMELLIA_FL x kl kr =
     (case x of (xl, xr) \<Rightarrow>
       (let temp1 = xl AND kl;
            xr = xr XOR ROL32 temp1 1;
            xl = xl XOR (xr OR kr)
        in (xl, xr)))"

definition CAMELLIA_INV_FL :: "uint32_t \<times> uint32_t \<Rightarrow> uint32_t \<Rightarrow> uint32_t \<Rightarrow> uint32_t \<times> uint32_t" where
  "CAMELLIA_INV_FL y kl kr =
     (case y of (yl, yr) \<Rightarrow>
       (let yl = yl XOR (yr OR kr);
            temp1 = yl AND kl;
            yr = yr XOR ROL32 temp1 1
        in (yl, yr)))"

subsection \<open>Key schedule\<close>

text \<open>
  The first part of \<open>camelliaInit\<close> after the round count is set: \<open>k\<close> is cleared,
  the key is copied onto its start, a 192-bit key is completed to 256 bits, and the
  loop over \<open>i < 4\<close> converts KL and KR to host order and sets KB.
\<close>

definition camelliaConvert :: "nat \<Rightarrow> uint32_t list \<Rightarrow> uint32_t list" where
  "camelliaConvert i k =
     (let k = k[KL + i := betoh32 (k ! (KL + i))];
          k = k[KR + i := betoh32 (k ! (KR + i))];
          k = k[KB + i := k ! (KL + i) XOR k ! (KR + i)]
      in k)"

definition camelliaLoadKey :: "uint8_t list \<Rightarrow> uint32_t list" where
  "camelliaLoadKey key =
     (let keyLength = length key;
          k = replicate 16 0;
          k = memcpy_words k key (keyLength div 4);
          k = (if keyLength = 24
               then (let k = k[KR + 2 := NOT (k ! (KR + 0))];
                         k = k[KR + 3 := NOT (k ! (KR + 1))]
                     in k)
               else k)
      in fold camelliaConvert [0..<4] k)"

text \<open>One iteration of the loop over \<open>i < 6\<close> that generates KA and KB.\<close>

definition camelliaKeyRound :: "nat \<Rightarrow> uint32_t list \<Rightarrow> uint32_t list" where
  "camelliaKeyRound i k =
     (case CAMELLIA_ROUND (k ! (KB + 0), k ! (KB + 1), k ! (KB + 2), k ! (KB + 3))
             (sigma ! (2 * i)) (sigma ! (2 * i + 1)) of
        (kb0, kb1, kb2, kb3) \<Rightarrow>
          (let k = k[KB + 0 := kb0, KB + 1 := kb1, KB + 2 := kb2, KB + 3 := kb3] in
           if i = 1 then
             (let k = k[KB + 0 := k ! (KB + 0) XOR k ! (KL + 0)];
                  k = k[KB + 1 := k ! (KB + 1) XOR k ! (KL + 1)];
                  k = k[KB + 2 := k ! (KB + 2) XOR k ! (KL + 2)];
                  k = k[KB + 3 := k ! (KB + 3) XOR k ! (KL + 3)]
              in k)
           else if i = 3 then
             (let k = k[KA + 0 := k ! (KB + 0), KA + 1 := k ! (KB + 1),
                        KA + 2 := k ! (KB + 2), KA + 3 := k ! (KB + 3)];
                  k = k[KB + 0 := k ! (KB + 0) XOR k ! (KR + 0)];
                  k = k[KB + 1 := k ! (KB + 1) XOR k ! (KR + 1)];
                  k = k[KB + 2 := k ! (KB + 2) XOR k ! (KR + 2)];
                  k = k[KB + 3 := k ! (KB + 3) XOR k ! (KR + 3)]
              in k)
           else k))"

text \<open>
  One iteration of the loop that generates the subkeys: \<open>p\<close> is the current row of
  the table, \<open>kk\<close> the key material and \<open>ks\<close> the subkey array being filled.
\<close>

definition camelliaGenSubkey :: "uint32_t list \<Rightarrow> CamelliaSubkey \<Rightarrow> uint32_t list \<Rightarrow> uint32_t list" where
  "camelliaGenSubkey kk p ks =
     (let n = (sk_shift p + sk_position p) div 32;
          m = (sk_shift p + sk_position p) mod 32;
          k = sk_key p
      in if m = 0 then
           (let ks = ks[sk_index p := kk ! (k + n mod 4)];
                ks = ks[sk_index p + 1 := kk ! (k + (n + 1) mod 4)]
            in ks)
         else
           (let ks = ks[sk_index p :=
                          push_bit m (kk ! (k + n mod 4)) OR
                          drop_bit (32 - m) (kk ! (k + (n + 1) mod 4))];
                ks = ks[sk_index p + 1 :=
                          push_bit m (kk ! (k + (n + 1) mod 4)) OR
                          drop_bit (32 - m) (kk ! (k + (n + 2) mod 4))]
            in ks))"

text \<open>
  \<open>camelliaInit\<close> returns the error code and the context as the call leaves it.
\<close>

definition camelliaInitSchedule :: "CamelliaContext \<Rightarrow> uint8_t list \<Rightarrow> error_t \<times> CamelliaContext" where
  "camelliaInitSchedule context key =
     (let keyLength = length key;
          k = camelliaLoadKey key;
          k = fold camelliaKeyRound [0..<6] k;
          p = (if keyLength = 16 then ks1 else ks2);
          ks = fold (camelliaGenSubkey k) p (cam_ks context)
      in (NO_ERROR, context\<lparr>cam_k := k, cam_ks := ks\<rparr>))"

definition camelliaInit :: "CamelliaContext \<Rightarrow> uint8_t list \<Rightarrow> error_t \<times> CamelliaContext" where
  "camelliaInit context key =
     (let keyLength = length key in
      if keyLength = 16 then camelliaInitSchedule (context\<lparr>cam_nr := 18\<rparr>) key
      else if keyLength = 24 \<or> keyLength = 32 then camelliaInitSchedule (context\<lparr>cam_nr := 24\<rparr>) key
      else (ERROR_INVALID_KEY_LENGTH, context))"

subsection \<open>Block encryption and decryption\<close>

type_synonym camellia_state = "uint32_t \<times> uint32_t \<times> uint32_t \<times> uint32_t"

text \<open>
  One iteration of the round loop of \<open>camelliaEncryptBlock\<close>. The pointer \<open>ks\<close> of
  the C code is the array \<open>ks\<close> with the offset \<open>p\<close>; the state lists \<open>left1\<close>,
  \<open>left2\<close>, \<open>right1\<close> and \<open>right2\<close>.
\<close>

definition camelliaEncryptStep :: "uint32_t list \<Rightarrow> nat \<Rightarrow> nat \<times> camellia_state \<Rightarrow> nat \<times> camellia_state" where
  "camelliaEncryptStep ks i ps =
     (case ps of (p, s) \<Rightarrow>
       (case CAMELLIA_ROUND s (ks ! (p + 0)) (ks ! (p + 1)) of
          (left1, left2, right1, right2) \<Rightarrow>
            (let p = p + 2 in
             if i = 7 \<or> i = 13 \<or> i = 19 then
               (case CAMELLIA_FL (left1, left2) (ks ! (p + 0)) (ks ! (p + 1)) of
                  (left1, left2) \<Rightarrow>
                    (case CAMELLIA_INV_FL (right1, right2) (ks ! (p + 2)) (ks ! (p + 3)) of
                       (right1, right2) \<Rightarrow> (p + 4, (left1, left2, right1, right2))))
             else (p, (left1, left2, right1, right2)))))"

text \<open>The loop \<open>for(i = context->nr; i > 0; i--)\<close>, started at \<open>i\<close>.\<close>

fun camelliaEncryptRounds :: "uint32_t list \<Rightarrow> nat \<Rightarrow> nat \<times> camellia_state \<Rightarrow> nat \<times> camellia_state" where
  "camelliaEncryptRounds ks 0 ps = ps"
| "camelliaEncryptRounds ks (Suc j) ps =
     camelliaEncryptRounds ks j (camelliaEncryptStep ks (Suc j) ps)"

definition camelliaEncryptBlock :: "CamelliaContext \<Rightarrow> uint8_t list \<Rightarrow> CamelliaContext \<times> uint8_t list" where
  "camelliaEncryptBlock context input =
     (let left1 = LOAD32BE (take 4 (drop 0 input));
          left2 = LOAD32BE (take 4 (drop 4 input));
          right1 = LOAD32BE (take 4 (drop 8 input));
          right2 = LOAD32BE (take 4 (drop 12 input));
          ks = cam_ks context;
          left1 = left1 XOR ks ! 0;
          left2 = left2 XOR ks ! 1;
          right1 = right1 XOR ks ! 2;
          right2 = right2 XOR ks ! 3
      in case camelliaEncryptRounds ks (cam_nr context) (4, (left1, left2, right1, right2)) of
           (p, (left1, left2, right1, right2)) \<Rightarrow>
             (let right1 = right1 XOR ks ! (p + 0);
                  right2 = right2 XOR ks ! (p + 1);
                  left1 = left1 XOR ks ! (p + 2);
                  left2 = left2 XOR ks ! (p + 3)
              in (context,
                  STORE32BE right1 @ STORE32BE right2 @ STORE32BE left1 @ STORE32BE left2)))"

text \<open>
  One iteration of the round loop of \<open>camelliaDecryptBlock\<close>; the state again lists
  \<open>left1\<close>, \<open>left2\<close>, \<open>right1\<close> and \<open>right2\<close>, and the round macro is expanded
  with the two halves exchanged. The offset moves down; for the round counts 18 and
  24 and the start offsets 48 and 64 it never passes the start of the array.
\<close>

definition camelliaDecryptStep :: "uint32_t list \<Rightarrow> nat \<Rightarrow> nat \<times> camellia_state \<Rightarrow> nat \<times> camellia_state" where
  "camelliaDecryptStep ks i ps =
     (case ps of (p, (left1, left2, right1, right2)) \<Rightarrow>
       (let p = p - 2 in
        case CAMELLIA_ROUND (right1, right2, left1, left2) (ks ! (p + 0)) (ks ! (p + 1)) of
          (right1, right2, left1, left2) \<Rightarrow>
            if i = 7 \<or> i = 13 \<or> i = 19 then
              (let p = p - 4 in
               case CAMELLIA_FL (right1, right2) (ks ! (p + 2)) (ks ! (p + 3)) of
                 (right1, right2) \<Rightarrow>
                   (case CAMELLIA_INV_FL (left1, left2) (ks ! (p + 0)) (ks ! (p + 1)) of
                      (left1, left2) \<Rightarrow> (p, (left1, left2, right1, right2))))
            else (p, (left1, left2, right1, right2))))"

fun camelliaDecryptRounds :: "uint32_t list \<Rightarrow> nat \<Rightarrow> nat \<times> camellia_state \<Rightarrow> nat \<times> camellia_state" where
  "camelliaDecryptRounds ks 0 ps = ps"
| "camelliaDecryptRounds ks (Suc j) ps =
     camelliaDecryptRounds ks j (camelliaDecryptStep ks (Suc j) ps)"

definition camelliaDecryptBlock :: "CamelliaContext \<Rightarrow> uint8_t list \<Rightarrow> CamelliaContext \<times> uint8_t list" where
  "camelliaDecryptBlock context input =
     (let right1 = LOAD32BE (take 4 (drop 0 input));
          right2 = LOAD32BE (take 4 (drop 4 input));
          left1 = LOAD32BE (take 4 (drop 8 input));
          left2 = LOAD32BE (take 4 (drop 12 input));
          ks = cam_ks context;
          p = (if cam_nr context = 18 then 48 else 64);
          right1 = right1 XOR ks ! (p + 0);
          right2 = right2 XOR ks ! (p + 1);
          left1 = left1 XOR ks ! (p + 2);
          left2 = left2 XOR ks ! (p + 3)
      in case camelliaDecryptRounds ks (cam_nr context) (p, (left1, left2, right1, right2)) of
           (p, (left1, left2, right1, right2)) \<Rightarrow>
             (let p = p - 4;
                  left1 = left1 XOR ks ! (p + 0);
                  left2 = left2 XOR ks ! (p + 1);
                  right1 = right1 XOR ks ! (p + 2);
                  right2 = right2 XOR ks ! (p + 3)
              in (context,
                  STORE32BE left1 @ STORE32BE left2 @ STORE32BE right1 @ STORE32BE right2)))"

section \<open>Auxiliary definitions for the proofs\<close>

subsection \<open>Multiplication in GF(2^8)\<close>

text \<open>
  The product of the specification: multiplication of polynomials over GF(2) modulo
  \<open>x^8 + x^4 + x^3 + x + 1\<close>, that is \<open>0x11B\<close>. \<open>gf256_xtime\<close> multiplies by
  \<open>x\<close>: the byte is shifted into nine bits and reduced by \<open>0x11B\<close> when the degree
  reaches eight. \<open>gf256_mul a b\<close> adds the multiples \<open>x^i * b\<close> for the bits \<open>i\<close> set
  in \<open>a\<close>. Neither is taken from the code.
\<close>

definition gf256_xtime :: "uint8_t \<Rightarrow> uint8_t" where
  "gf256_xtime b =
     (let v = push_bit 1 (ucast b :: 16 word)
      in ucast (if bit v 8 then v XOR 0x11B else v))"

fun gf256_mul_aux :: "nat \<Rightarrow> uint8_t \<Rightarrow> uint8_t \<Rightarrow> uint8_t" where
  "gf256_mul_aux 0 a b = 0"
| "gf256_mul_aux (Suc n) a b =
     (if bit a 0 then b else 0) XOR gf256_mul_aux n (drop_bit 1 a) (gf256_xtime b)"

definition gf256_mul :: "uint8_t \<Rightarrow> uint8_t \<Rightarrow> uint8_t" where
  "gf256_mul a b = gf256_mul_aux 8 a b"

subsection \<open>Columns of MixColumns and InvMixColumns\<close>

text \<open>
  What one iteration of the column loops of \<open>mixColumns\<close> and \<open>invMixColumns\<close> stores
  for the column \<open>(b0, b1, b2, b3)\<close>; \<open>invMixQ\<close> is the value of \<open>q\<close> after its
  second assignment.
\<close>

definition mixCol :: "uint8_t \<Rightarrow> uint8_t \<Rightarrow> uint8_t \<Rightarrow> uint8_t \<Rightarrow> uint8_t list" where
  "mixCol b0 b1 b2 b3 =
    [(b0 XOR b1 XOR b2 XOR b3) XOR b0 XOR mul2 ! unat (b0 XOR b1),
     (b0 XOR b1 XOR b2 XOR b3) XOR b1 XOR mul2 ! unat (b1 XOR b2),
     (b0 XOR b1 XOR b2 XOR b3) XOR b2 XOR mul2 ! unat (b2 XOR b3),
     (b0 XOR b1 XOR b2 XOR b3) XOR b3 XOR mul2 ! unat (b3 XOR b0)]"

definition invMixQ :: "uint8_t \<Rightarrow> uint8_t \<Rightarrow> uint8_t \<Rightarrow> uint8_t \<Rightarrow> uint8_t" where
  "invMixQ b0 b1 b2 b3 =
     (b0 XOR b1 XOR b2 XOR b3) XOR
     mul2 ! unat (mul2 ! unat (mul2 ! unat (b0 XOR b1 XOR b2 XOR b3)))"

definition invMixCol :: "uint8_t \<Rightarrow> uint8_t \<Rightarrow> uint8_t \<Rightarrow> uint8_t \<Rightarrow> uint8_t list" where
  "invMixCol b0 b1 b2 b3 =
    [(invMixQ b0 b1 b2 b3 XOR mul2 ! unat (mul2 ! unat (b0 XOR b2))) XOR b0 XOR mul2 ! unat (b0 XOR b1),
     (invMixQ b0 b1 b2 b3 XOR mul2 ! unat (mul2 ! unat (b1 XOR b3))) XOR b1 XOR mul2 ! unat (b1 XOR b2),
     (invMixQ b0 b1 b2 b3 XOR mul2 ! unat (mul2 ! unat (b0 XOR b2))) XOR b2 XOR mul2 ! unat (b2 XOR b3),
     (invMixQ b0 b1 b2 b3 XOR mul2 ! unat (mul2 ! unat (b1 XOR b3))) XOR b3 XOR mul2 ! unat (b3 XOR b0)]"

subsection \<open>Parts of the Camellia round loops\<close>

text \<open>
  Names for what one iteration of the round loops does to the state \<open>(left1, left2,
  right1, right2)\<close>: the round macro expanded with the halves exchanged, as in
  \<open>camelliaDecryptBlock\<close>, and the pairs of FL and inverse FL expansions of the two
  block functions, reading four subkey words from offset \<open>q\<close>.
\<close>

definition camelliaSwap :: "camellia_state \<Rightarrow> camellia_state" where
  "camelliaSwap s = (case s of (left1, left2, right1, right2) \<Rightarrow> (right1, right2, left1, left2))"

definition camelliaDecRound :: "camellia_state \<Rightarrow> uint32_t \<Rightarrow> uint32_t \<Rightarrow> camellia_state" where
  "camelliaDecRound s k1 k2 = camelliaSwap (CAMELLIA_ROUND (camelliaSwap s) k1 k2)"

definition camelliaEncFL :: "uint32_t list \<Rightarrow> nat \<Rightarrow> camellia_state \<Rightarrow> camellia_state" where
  "camelliaEncFL ks q s =
     (case s of (left1, left2, right1, right2) \<Rightarrow>
        (fst (CAMELLIA_FL (left1, left2) (ks ! (q + 0)) (ks ! (q + 1))),
         snd (CAMELLIA_FL (left1, left2) (ks ! (q + 0)) (ks ! (q + 1))),
         fst (CAMELLIA_INV_FL (right1, right2) (ks ! (q + 2)) (ks ! (q + 3))),
         snd (CAMELLIA_INV_FL (right1, right2) (ks ! (q + 2)) (ks ! (q + 3)))))"

definition camelliaDecFL :: "uint32_t list \<Rightarrow> nat \<Rightarrow> camellia_state \<Rightarrow> camellia_state" where
  "camelliaDecFL ks q s =
     (case s of (left1, left2, right1, right2) \<Rightarrow>
        (fst (CAMELLIA_INV_FL (left1, left2) (ks ! (q + 0)) (ks ! (q + 1))),
         snd (CAMELLIA_INV_FL (left1, left2) (ks ! (q + 0)) (ks ! (q + 1))),
         fst (CAMELLIA_FL (right1, right2) (ks ! (q + 2)) (ks ! (q + 3))),
         snd (CAMELLIA_FL (right1, right2) (ks ! (q + 2)) (ks ! (q + 3)))))"

subsection \<open>The encryption schedule of the specification\<close>

text \<open>
  Section 4.3 of the specification describes block encryption as a sequence of
  operations that read consecutive subkey words: the whitening of the loaded block,
  \<open>nr\<close> rounds with FL and inverse FL after every sixth round except the last, and
  the whitening of the result. \<open>camelliaSchedule\<close> is that sequence,
  \<open>camellia_op_words\<close> the number of subkey words an operation reads, and
  \<open>camelliaRun\<close> carries the operations out from an offset into \<open>ks\<close>, moving the
  offset past the words each one reads. None of this is taken from the code.
\<close>

datatype camellia_op = PreWhitening | Round | FL_pair | PostWhitening

fun camellia_op_words :: "camellia_op \<Rightarrow> nat" where
  "camellia_op_words PreWhitening = 4"
| "camellia_op_words Round = 2"
| "camellia_op_words FL_pair = 4"
| "camellia_op_words PostWhitening = 4"

fun camelliaApplyOp :: "uint32_t list \<Rightarrow> camellia_op \<Rightarrow> nat \<Rightarrow> camellia_state \<Rightarrow> camellia_state" where
  "camelliaApplyOp ks PreWhitening p (left1, left2, right1, right2) =
     (left1 XOR ks ! (p + 0), left2 XOR ks ! (p + 1), right1 XOR ks ! (p + 2), right2 XOR ks ! (p + 3))"
| "camelliaApplyOp ks Round p s = CAMELLIA_ROUND s (ks ! (p + 0)) (ks ! (p + 1))"
| "camelliaApplyOp ks FL_pair p (left1, left2, right1, right2) =
     (fst (CAMELLIA_FL (left1, left2) (ks ! (p + 0)) (ks ! (p + 1))),
      snd (CAMELLIA_FL (left1, left2) (ks ! (p + 0)) (ks ! (p + 1))),
      fst (CAMELLIA_INV_FL (right1, right2) (ks ! (p + 2)) (ks ! (p + 3))),
      snd (CAMELLIA_INV_FL (right1, right2) (ks ! (p + 2)) (ks ! (p + 3))))"
| "camelliaApplyOp ks PostWhitening p (left1, left2, right1, right2) =
     (left1 XOR ks ! (p + 2), left2 XOR ks ! (p + 3), right1 XOR ks ! (p + 0), right2 XOR ks ! (p + 1))"

fun camelliaRun :: "uint32_t list \<Rightarrow> camellia_op list \<Rightarrow> nat \<times> camellia_state \<Rightarrow> nat \<times> camellia_state" where
  "camelliaRun ks [] ps = ps"
| "camelliaRun ks (x # xs) ps =
     camelliaRun ks xs (fst ps + camellia_op_words x, camelliaApplyOp ks x (fst ps) (snd ps))"

definition camelliaSchedule :: "nat \<Rightarrow> camellia_op list" where
  "camelliaSchedule nr =
     PreWhitening #
     concat (map (\<lambda>r. if r mod 6 = 0 \<and> r \<noteq> nr then [Round, FL_pair] else [Round]) [1..<nr + 1]) @
     [PostWhitening]"

text \<open>The block as four big-endian words, and the bytes of the output block.\<close>

definition camelliaLoadBlock :: "uint8_t list \<Rightarrow> camellia_state" where
  "camelliaLoadBlock input =
     (LOAD32BE (take 4 (drop 0 input)), LOAD32BE (take 4 (drop 4 input)),
      LOAD32BE (take 4 (drop 8 input)), LOAD32BE (take 4 (drop 12 input)))"

definition camelliaStoreBlock :: "camellia_state \<Rightarrow> uint8_t list" where
  "camelliaStoreBlock s =
     (case s of (left1, left2, right1, right2) \<Rightarrow>
        STORE32BE right1 @ STORE32BE right2 @ STORE32BE left1 @ STORE32BE left2)"

subsection \<open>Test vectors\<close>

text \<open>
  The keys, plaintexts and ciphertexts of the known-answer table of the specification
  (FIPS 197, appendix C, and RFC 3713), and contexts that have not been initialised.
\<close>

definition aes_key128 :: "uint8_t list" where
  "aes_key128 = [0x00, 0x01, 0x02, 0x03, 0x04, 0x05, 0x06, 0x07,
                 0x08, 0x09, 0x0A, 0x0B, 0x0C, 0x0D, 0x0E, 0x0F]"

definition aes_key192 :: "uint8_t list" where
  "aes_key192 = [0x00, 0x01, 0x02, 0x03, 0x04, 0x05, 0x06, 0x07,
                 0x08, 0x09, 0x0A, 0x0B, 0x0C, 0x0D, 0x0E, 0x0F,
                 0x10, 0x11, 0x12, 0x13, 0x14, 0x15, 0x16, 0x17]"

definition aes_key256 :: "uint8_t list" where
  "aes_key256 = [0x00, 0x01, 0x02, 0x03, 0x04, 0x05, 0x06, 0x07,
                 0x08, 0x09, 0x0A, 0x0B, 0x0C, 0x0D, 0x0E, 0x0F,
                 0x10, 0x11, 0x12, 0x13, 0x14, 0x15, 0x16, 0x17,
                 0x18, 0x19, 0x1A, 0x1B, 0x1C, 0x1D, 0x1E, 0x1F]"

definition aes_plain :: "uint8_t list" where
  "aes_plain = [0x00, 0x11, 0x22, 0x33, 0x44, 0x55, 0x66, 0x77,
                0x88, 0x99, 0xAA, 0xBB, 0xCC, 0xDD, 0xEE, 0xFF]"

definition aes_cipher128 :: "uint8_t list" where
  "aes_cipher128 = [0x69, 0xC4, 0xE0, 0xD8, 0x6A, 0x7B, 0x04, 0x30,
                    0xD8, 0xCD, 0xB7, 0x80, 0x70, 0xB4, 0xC5, 0x5A]"

definition aes_cipher192 :: "uint8_t list" where
  "aes_cipher192 = [0xDD, 0xA9, 0x7C, 0xA4, 0x86, 0x4C, 0xDF, 0xE0,
                    0x6E, 0xAF, 0x70, 0xA0, 0xEC, 0x0D, 0x71, 0x91]"

definition aes_cipher256 :: "uint8_t list" where
  "aes_cipher256 = [0x8E, 0xA2, 0xB7, 0xCA, 0x51, 0x67, 0x45, 0xBF,
                    0xEA, 0xFC, 0x49, 0x90, 0x4B, 0x49, 0x60, 0x89]"

definition camellia_key128 :: "uint8_t list" where
  "camellia_key128 = [0x01, 0x23, 0x45, 0x67, 0x89, 0xAB, 0xCD, 0xEF,
                      0xFE, 0xDC, 0xBA, 0x98, 0x76, 0x54, 0x32, 0x10]"

definition camellia_key192 :: "uint8_t list" where
  "camellia_key192 = [0x01, 0x23, 0x45, 0x67, 0x89, 0xAB, 0xCD, 0xEF,
                      0xFE, 0xDC, 0xBA, 0x98, 0x76, 0x54, 0x32, 0x10,
                      0x00, 0x11, 0x22, 0x33, 0x44, 0x55, 0x66, 0x77]"

definition camellia_key256 :: "uint8_t list" where
  "camellia_key256 = [0x01, 0x23, 0x45, 0x67, 0x89, 0xAB, 0xCD, 0xEF,
                      0xFE, 0xDC, 0xBA, 0x98, 0x76, 0x54, 0x32, 0x10,
                      0x00, 0x11, 0x22, 0x33, 0x44, 0x55, 0x66, 0x77,
                      0x88, 0x99, 0xAA, 0xBB, 0xCC, 0xDD, 0xEE, 0xFF]"

definition camellia_plain :: "uint8_t list" where
  "camellia_plain = [0x01, 0x23, 0x45, 0x67, 0x89, 0xAB, 0xCD, 0xEF,
                     0xFE, 0xDC, 0xBA, 0x98, 0x76, 0x54, 0x32, 0x10]"

definition camellia_cipher128 :: "uint8_t list" where
  "camellia_cipher128 = [0x67, 0x67, 0x31, 0x38, 0x54, 0x96, 0x69, 0x73,
                         0x08, 0x57, 0x06, 0x56, 0x48, 0xEA, 0xBE, 0x43]"

definition camellia_cipher192 :: "uint8_t list" where
  "camellia_cipher192 = [0xB4, 0x99, 0x34, 0x01, 0xB3, 0xE9, 0x96, 0xF8,
                         0x4E, 0xE5, 0xCE, 0xE7, 0xD7, 0x9B, 0x09, 0xB9]"

definition camellia_cipher256 :: "uint8_t list" where
  "camellia_cipher256 = [0x9A, 0xCC, 0x23, 0x7D, 0xFF, 0x16, 0xD7, 0x6C,
                         0x20, 0xEF, 0x7C, 0x91, 0x9E, 0x3A, 0x75, 0x09]"

definition aes_context0 :: AesContext where
  "aes_context0 = \<lparr>aes_nr = 0, aes_w = replicate 60 0\<rparr>"

definition camellia_context0 :: CamelliaContext where
  "camellia_context0 = \<lparr>cam_nr = 0, cam_k = replicate 16 0, cam_ks = replicate 68 0\<rparr>"



section \<open>Lists of known length, bytes and words\<close>

lemma list16:
  "length (s::'a list) = 16 \<Longrightarrow>
   \<exists>a0 a1 a2 a3 a4 a5 a6 a7 a8 a9 a10 a11 a12 a13 a14 a15.
     s = [a0, a1, a2, a3, a4, a5, a6, a7, a8, a9, a10, a11, a12, a13, a14, a15]"
  by (simp add: numeral_eq_Suc length_Suc_conv) blast

lemma upt_0_16: "[0..<16] = [0, 1, 2, 3, 4, 5, 6, 7, 8, 9, 10, 11, 12, 13, 14, 15]"
  by code_simp

lemma upt_0_4: "[0..<4] = [0, 1, 2, 3]"
  by code_simp

lemma upt_0_6: "[0..<6] = [0, 1, 2, 3, 4, 5]"
  by code_simp

lemma byte_cases:
  assumes "map f [0..<256] = map g [0..<256]"
  shows "f (unat (x :: uint8_t)) = g (unat x)"
proof -
  have "unat x < 256" using unsigned_less [of x] by simp
  with assms show ?thesis by simp
qed

lemma store32h_load32h: "store32h (load32h [a, b, c, d]) = [a, b, c, d]"
  unfolding store32h_def load32h_def
  by (simp, intro conjI; rule bit_word_eqI; auto simp add: bit_simps dest: bit_imp_le_length)

lemma load32h_store32h: "load32h (store32h x) = x"
  unfolding store32h_def load32h_def
  apply simp
  apply (rule bit_word_eqI)
  subgoal for n
    by (cases "n < 8"; cases "n < 16"; cases "n < 24") (auto simp add: bit_simps not_less)
  done

lemma ucast_xor_32_8: "(ucast (x XOR y :: uint32_t) :: uint8_t) = ucast x XOR ucast y"
  by (rule bit_word_eqI) (auto simp add: bit_simps)

lemma store32h_xor: "store32h (x XOR y) = map2 (XOR) (store32h x) (store32h y)"
  by (simp add: store32h_def ucast_xor_32_8)

lemma xor_cancel_left: "(x :: 'a :: len word) XOR (x XOR y) = y"
  by (simp add: xor.assoc [symmetric])

section \<open>AES: the tables\<close>

lemma isbox_sbox_tab: "map (\<lambda>i. isbox ! unat (sbox ! i)) [0..<256] = map of_nat [0..<256]"
  by code_simp

lemma sbox_isbox_tab: "map (\<lambda>i. sbox ! unat (isbox ! i)) [0..<256] = map of_nat [0..<256]"
  by code_simp

lemma mul2_tab: "map (\<lambda>i. mul2 ! i) [0..<256] = map (\<lambda>i. gf256_xtime (of_nat i)) [0..<256]"
  by code_simp

lemma isbox_sbox: "isbox ! unat (sbox ! unat (x :: uint8_t)) = x"
  using byte_cases [OF isbox_sbox_tab, of x] by simp

lemma sbox_isbox: "sbox ! unat (isbox ! unat (x :: uint8_t)) = x"
  using byte_cases [OF sbox_isbox_tab, of x] by simp

lemma mul2_xtime: "mul2 ! unat (x :: uint8_t) = gf256_xtime x"
  using byte_cases [OF mul2_tab, of x] by simp

lemma gf256_xtime_tab:
  "map (\<lambda>i. gf256_xtime (of_nat i)) [0..<256] =
   map (\<lambda>i. if bit (of_nat i :: uint8_t) 7 then push_bit 1 (of_nat i) XOR 0x1B
                else push_bit 1 (of_nat i)) [0..<256]"
  by code_simp

lemma gf256_xtime_alt:
  "gf256_xtime b = (if bit b 7 then push_bit 1 b XOR 0x1B else push_bit 1 b)"
  using byte_cases [OF gf256_xtime_tab, of b] by simp

lemma gf256_xtime_xor: "gf256_xtime (a XOR b) = gf256_xtime a XOR gf256_xtime b"
  by (simp add: gf256_xtime_alt bit_xor_iff ac_simps)

lemma mul2_xor: "mul2 ! unat (a XOR b :: uint8_t) = mul2 ! unat a XOR mul2 ! unat b"
  by (simp add: mul2_xtime gf256_xtime_xor)

lemma gf256_mul_aux_numeral:
  "gf256_mul_aux (numeral k) a b =
     (if bit a 0 then b else 0) XOR gf256_mul_aux (pred_numeral k) (drop_bit 1 a) (gf256_xtime b)"
  by (simp add: numeral_eq_Suc)

lemma gf256_mul_9: "gf256_mul 9 p = p XOR gf256_xtime (gf256_xtime (gf256_xtime p))"
  by (simp add: gf256_mul_def gf256_mul_aux_numeral)



section \<open>AES: the transformations on an explicit state\<close>

lemma subBytes16:
  "subBytes [a0, a1, a2, a3, a4, a5, a6, a7, a8, a9, a10, a11, a12, a13, a14, a15] =
   map (\<lambda>b. sbox ! unat b) [a0, a1, a2, a3, a4, a5, a6, a7, a8, a9, a10, a11, a12, a13, a14, a15]"
  by (simp add: subBytes_def upt_0_16)

lemma invSubBytes16:
  "invSubBytes [a0, a1, a2, a3, a4, a5, a6, a7, a8, a9, a10, a11, a12, a13, a14, a15] =
   map (\<lambda>b. isbox ! unat b) [a0, a1, a2, a3, a4, a5, a6, a7, a8, a9, a10, a11, a12, a13, a14, a15]"
  by (simp add: invSubBytes_def upt_0_16)

lemma shiftRows16:
  "shiftRows [a0, a1, a2, a3, a4, a5, a6, a7, a8, a9, a10, a11, a12, a13, a14, a15] =
   [a0, a5, a10, a15, a4, a9, a14, a3, a8, a13, a2, a7, a12, a1, a6, a11]"
  by (simp add: shiftRows_def)

lemma invShiftRows16:
  "invShiftRows [a0, a1, a2, a3, a4, a5, a6, a7, a8, a9, a10, a11, a12, a13, a14, a15] =
   [a0, a13, a10, a7, a4, a1, a14, a11, a8, a5, a2, a15, a12, a9, a6, a3]"
  by (simp add: invShiftRows_def)

lemma mixColumn_0:
  "mixColumn 0 [a0, a1, a2, a3, a4, a5, a6, a7, a8, a9, a10, a11, a12, a13, a14, a15] =
   mixCol a0 a1 a2 a3 @ [a4, a5, a6, a7, a8, a9, a10, a11, a12, a13, a14, a15]"
  unfolding mixColumn_def Let_def mixCol_def by simp

lemma mixColumn_4:
  "mixColumn 4 [a0, a1, a2, a3, a4, a5, a6, a7, a8, a9, a10, a11, a12, a13, a14, a15] =
   [a0, a1, a2, a3] @ mixCol a4 a5 a6 a7 @ [a8, a9, a10, a11, a12, a13, a14, a15]"
  unfolding mixColumn_def Let_def mixCol_def by simp

lemma mixColumn_8:
  "mixColumn 8 [a0, a1, a2, a3, a4, a5, a6, a7, a8, a9, a10, a11, a12, a13, a14, a15] =
   [a0, a1, a2, a3, a4, a5, a6, a7] @ mixCol a8 a9 a10 a11 @ [a12, a13, a14, a15]"
  unfolding mixColumn_def Let_def mixCol_def by simp

lemma mixColumn_12:
  "mixColumn 12 [a0, a1, a2, a3, a4, a5, a6, a7, a8, a9, a10, a11, a12, a13, a14, a15] =
   [a0, a1, a2, a3, a4, a5, a6, a7, a8, a9, a10, a11] @ mixCol a12 a13 a14 a15"
  unfolding mixColumn_def Let_def mixCol_def by simp

lemma invMixColumn_0:
  "invMixColumn 0 [a0, a1, a2, a3, a4, a5, a6, a7, a8, a9, a10, a11, a12, a13, a14, a15] =
   invMixCol a0 a1 a2 a3 @ [a4, a5, a6, a7, a8, a9, a10, a11, a12, a13, a14, a15]"
  unfolding invMixColumn_def Let_def invMixCol_def invMixQ_def by simp

lemma invMixColumn_4:
  "invMixColumn 4 [a0, a1, a2, a3, a4, a5, a6, a7, a8, a9, a10, a11, a12, a13, a14, a15] =
   [a0, a1, a2, a3] @ invMixCol a4 a5 a6 a7 @ [a8, a9, a10, a11, a12, a13, a14, a15]"
  unfolding invMixColumn_def Let_def invMixCol_def invMixQ_def by simp

lemma invMixColumn_8:
  "invMixColumn 8 [a0, a1, a2, a3, a4, a5, a6, a7, a8, a9, a10, a11, a12, a13, a14, a15] =
   [a0, a1, a2, a3, a4, a5, a6, a7] @ invMixCol a8 a9 a10 a11 @ [a12, a13, a14, a15]"
  unfolding invMixColumn_def Let_def invMixCol_def invMixQ_def by simp

lemma invMixColumn_12:
  "invMixColumn 12 [a0, a1, a2, a3, a4, a5, a6, a7, a8, a9, a10, a11, a12, a13, a14, a15] =
   [a0, a1, a2, a3, a4, a5, a6, a7, a8, a9, a10, a11] @ invMixCol a12 a13 a14 a15"
  unfolding invMixColumn_def Let_def invMixCol_def invMixQ_def by simp

lemma mixCol_ex: "\<exists>c0 c1 c2 c3. mixCol b0 b1 b2 b3 = [c0, c1, c2, c3]"
  by (simp add: mixCol_def)

lemma invMixCol_ex: "\<exists>c0 c1 c2 c3. invMixCol b0 b1 b2 b3 = [c0, c1, c2, c3]"
  by (simp add: invMixCol_def)

lemma mixColumns16:
  "mixColumns [a0, a1, a2, a3, a4, a5, a6, a7, a8, a9, a10, a11, a12, a13, a14, a15] =
   mixCol a0 a1 a2 a3 @ mixCol a4 a5 a6 a7 @ mixCol a8 a9 a10 a11 @ mixCol a12 a13 a14 a15"
proof -
  obtain c0 c1 c2 c3 where c0: "mixCol a0 a1 a2 a3 = [c0, c1, c2, c3]"
    using mixCol_ex by blast
  obtain c4 c5 c6 c7 where c1: "mixCol a4 a5 a6 a7 = [c4, c5, c6, c7]"
    using mixCol_ex by blast
  obtain c8 c9 c10 c11 where c2: "mixCol a8 a9 a10 a11 = [c8, c9, c10, c11]"
    using mixCol_ex by blast
  show ?thesis
    by (simp add: mixColumns_def mixColumn_0 mixColumn_4 mixColumn_8 mixColumn_12 c0 c1 c2)
qed

lemma invMixColumns16:
  "invMixColumns [a0, a1, a2, a3, a4, a5, a6, a7, a8, a9, a10, a11, a12, a13, a14, a15] =
   invMixCol a0 a1 a2 a3 @ invMixCol a4 a5 a6 a7 @ invMixCol a8 a9 a10 a11 @
   invMixCol a12 a13 a14 a15"
proof -
  obtain c0 c1 c2 c3 where c0: "invMixCol a0 a1 a2 a3 = [c0, c1, c2, c3]"
    using invMixCol_ex by blast
  obtain c4 c5 c6 c7 where c1: "invMixCol a4 a5 a6 a7 = [c4, c5, c6, c7]"
    using invMixCol_ex by blast
  obtain c8 c9 c10 c11 where c2: "invMixCol a8 a9 a10 a11 = [c8, c9, c10, c11]"
    using invMixCol_ex by blast
  show ?thesis
    by (simp add: invMixColumns_def invMixColumn_0 invMixColumn_4 invMixColumn_8
          invMixColumn_12 c0 c1 c2)
qed

lemma store32h_xor_load32h:
  "store32h (load32h [a, b, c, d] XOR k) =
   [a XOR ucast k, b XOR ucast (drop_bit 8 k), c XOR ucast (drop_bit 16 k),
    d XOR ucast (drop_bit 24 k)]"
  using store32h_load32h [of a b c d]
  by (simp add: store32h_xor) (simp add: store32h_def)

lemma addRoundKey_word0:
  "state_w_update [a0, a1, a2, a3, a4, a5, a6, a7, a8, a9, a10, a11, a12, a13, a14, a15] 0
     (state_w [a0, a1, a2, a3, a4, a5, a6, a7, a8, a9, a10, a11, a12, a13, a14, a15] 0 XOR k) =
   [a0 XOR ucast k, a1 XOR ucast (drop_bit 8 k), a2 XOR ucast (drop_bit 16 k),
    a3 XOR ucast (drop_bit 24 k), a4, a5, a6, a7, a8, a9, a10, a11, a12, a13, a14, a15]"
  by (simp add: state_w_def state_w_update_def store32h_xor_load32h)

lemma addRoundKey_word1:
  "state_w_update [a0, a1, a2, a3, a4, a5, a6, a7, a8, a9, a10, a11, a12, a13, a14, a15] 1
     (state_w [a0, a1, a2, a3, a4, a5, a6, a7, a8, a9, a10, a11, a12, a13, a14, a15] 1 XOR k) =
   [a0, a1, a2, a3, a4 XOR ucast k, a5 XOR ucast (drop_bit 8 k), a6 XOR ucast (drop_bit 16 k),
    a7 XOR ucast (drop_bit 24 k), a8, a9, a10, a11, a12, a13, a14, a15]"
  by (simp add: state_w_def state_w_update_def store32h_xor_load32h)

lemma addRoundKey_word2:
  "state_w_update [a0, a1, a2, a3, a4, a5, a6, a7, a8, a9, a10, a11, a12, a13, a14, a15] 2
     (state_w [a0, a1, a2, a3, a4, a5, a6, a7, a8, a9, a10, a11, a12, a13, a14, a15] 2 XOR k) =
   [a0, a1, a2, a3, a4, a5, a6, a7, a8 XOR ucast k, a9 XOR ucast (drop_bit 8 k),
    a10 XOR ucast (drop_bit 16 k), a11 XOR ucast (drop_bit 24 k), a12, a13, a14, a15]"
  by (simp add: state_w_def state_w_update_def store32h_xor_load32h)

lemma addRoundKey_word3:
  "state_w_update [a0, a1, a2, a3, a4, a5, a6, a7, a8, a9, a10, a11, a12, a13, a14, a15] 3
     (state_w [a0, a1, a2, a3, a4, a5, a6, a7, a8, a9, a10, a11, a12, a13, a14, a15] 3 XOR k) =
   [a0, a1, a2, a3, a4, a5, a6, a7, a8, a9, a10, a11, a12 XOR ucast k,
    a13 XOR ucast (drop_bit 8 k), a14 XOR ucast (drop_bit 16 k), a15 XOR ucast (drop_bit 24 k)]"
  by (simp add: state_w_def state_w_update_def store32h_xor_load32h)

lemma addRoundKey16:
  "addRoundKey [a0, a1, a2, a3, a4, a5, a6, a7, a8, a9, a10, a11, a12, a13, a14, a15] kw off =
   [a0 XOR ucast (kw ! (off + 0)), a1 XOR ucast (drop_bit 8 (kw ! (off + 0))),
    a2 XOR ucast (drop_bit 16 (kw ! (off + 0))), a3 XOR ucast (drop_bit 24 (kw ! (off + 0))),
    a4 XOR ucast (kw ! (off + 1)), a5 XOR ucast (drop_bit 8 (kw ! (off + 1))),
    a6 XOR ucast (drop_bit 16 (kw ! (off + 1))), a7 XOR ucast (drop_bit 24 (kw ! (off + 1))),
    a8 XOR ucast (kw ! (off + 2)), a9 XOR ucast (drop_bit 8 (kw ! (off + 2))),
    a10 XOR ucast (drop_bit 16 (kw ! (off + 2))), a11 XOR ucast (drop_bit 24 (kw ! (off + 2))),
    a12 XOR ucast (kw ! (off + 3)), a13 XOR ucast (drop_bit 8 (kw ! (off + 3))),
    a14 XOR ucast (drop_bit 16 (kw ! (off + 3))), a15 XOR ucast (drop_bit 24 (kw ! (off + 3)))]"
  unfolding addRoundKey_def Let_def
  by (simp only: addRoundKey_word0 addRoundKey_word1 addRoundKey_word2 addRoundKey_word3)

section \<open>AES: every transformation is undone by its inverse\<close>

lemmas xor_norm = mul2_xor xor_cancel_left xor.assoc xor.commute xor.left_commute

lemma invMixCol_mixCol:
  assumes "mixCol b0 b1 b2 b3 = [c0, c1, c2, c3]"
  shows "invMixCol c0 c1 c2 c3 = [b0, b1, b2, b3]"
proof -
  from assms have c:
    "c0 = (b0 XOR b1 XOR b2 XOR b3) XOR b0 XOR mul2 ! unat (b0 XOR b1)"
    "c1 = (b0 XOR b1 XOR b2 XOR b3) XOR b1 XOR mul2 ! unat (b1 XOR b2)"
    "c2 = (b0 XOR b1 XOR b2 XOR b3) XOR b2 XOR mul2 ! unat (b2 XOR b3)"
    "c3 = (b0 XOR b1 XOR b2 XOR b3) XOR b3 XOR mul2 ! unat (b3 XOR b0)"
    unfolding mixCol_def by blast+
  show ?thesis
    unfolding c invMixCol_def invMixQ_def by (simp add: xor_norm)
qed

lemma mixCol_invMixCol:
  assumes "invMixCol b0 b1 b2 b3 = [c0, c1, c2, c3]"
  shows "mixCol c0 c1 c2 c3 = [b0, b1, b2, b3]"
proof -
  from assms have c:
    "c0 = (invMixQ b0 b1 b2 b3 XOR mul2 ! unat (mul2 ! unat (b0 XOR b2))) XOR b0 XOR mul2 ! unat (b0 XOR b1)"
    "c1 = (invMixQ b0 b1 b2 b3 XOR mul2 ! unat (mul2 ! unat (b1 XOR b3))) XOR b1 XOR mul2 ! unat (b1 XOR b2)"
    "c2 = (invMixQ b0 b1 b2 b3 XOR mul2 ! unat (mul2 ! unat (b0 XOR b2))) XOR b2 XOR mul2 ! unat (b2 XOR b3)"
    "c3 = (invMixQ b0 b1 b2 b3 XOR mul2 ! unat (mul2 ! unat (b1 XOR b3))) XOR b3 XOR mul2 ! unat (b3 XOR b0)"
    unfolding invMixCol_def by blast+
  show ?thesis
    unfolding c mixCol_def invMixQ_def by (simp add: xor_norm)
qed

lemma invMixColumns_mixColumns:
  assumes "length s = 16" shows "invMixColumns (mixColumns s) = s"
proof -
  from list16 [OF assms] obtain a0 a1 a2 a3 a4 a5 a6 a7 a8 a9 a10 a11 a12 a13 a14 a15
    where s: "s = [a0, a1, a2, a3, a4, a5, a6, a7, a8, a9, a10, a11, a12, a13, a14, a15]"
    by blast
  obtain c0 c1 c2 c3 where c0: "mixCol a0 a1 a2 a3 = [c0, c1, c2, c3]"
    using mixCol_ex by blast
  obtain c4 c5 c6 c7 where c1: "mixCol a4 a5 a6 a7 = [c4, c5, c6, c7]"
    using mixCol_ex by blast
  obtain c8 c9 c10 c11 where c2: "mixCol a8 a9 a10 a11 = [c8, c9, c10, c11]"
    using mixCol_ex by blast
  obtain c12 c13 c14 c15 where c3: "mixCol a12 a13 a14 a15 = [c12, c13, c14, c15]"
    using mixCol_ex by blast
  show ?thesis
    by (simp add: s mixColumns16 c0 c1 c2 c3 invMixColumns16
          invMixCol_mixCol [OF c0] invMixCol_mixCol [OF c1]
          invMixCol_mixCol [OF c2] invMixCol_mixCol [OF c3])
qed

lemma mixColumns_invMixColumns:
  assumes "length s = 16" shows "mixColumns (invMixColumns s) = s"
proof -
  from list16 [OF assms] obtain a0 a1 a2 a3 a4 a5 a6 a7 a8 a9 a10 a11 a12 a13 a14 a15
    where s: "s = [a0, a1, a2, a3, a4, a5, a6, a7, a8, a9, a10, a11, a12, a13, a14, a15]"
    by blast
  obtain c0 c1 c2 c3 where c0: "invMixCol a0 a1 a2 a3 = [c0, c1, c2, c3]"
    using invMixCol_ex by blast
  obtain c4 c5 c6 c7 where c1: "invMixCol a4 a5 a6 a7 = [c4, c5, c6, c7]"
    using invMixCol_ex by blast
  obtain c8 c9 c10 c11 where c2: "invMixCol a8 a9 a10 a11 = [c8, c9, c10, c11]"
    using invMixCol_ex by blast
  obtain c12 c13 c14 c15 where c3: "invMixCol a12 a13 a14 a15 = [c12, c13, c14, c15]"
    using invMixCol_ex by blast
  show ?thesis
    by (simp add: s invMixColumns16 c0 c1 c2 c3 mixColumns16
          mixCol_invMixCol [OF c0] mixCol_invMixCol [OF c1]
          mixCol_invMixCol [OF c2] mixCol_invMixCol [OF c3])
qed

text \<open>
  Claim C6. \<open>invMixColumns\<close> is the exact inverse of \<open>mixColumns\<close>: on every state of
  sixteen bytes each undoes the other. Moreover, for every byte \<open>p\<close>, the value
  \<open>p XOR mul2[mul2[mul2[p]]]\<close> that \<open>invMixColumns\<close> computes with the table is the
  product of \<open>{09}\<close> and \<open>p\<close> in GF(2^8) modulo \<open>0x11B\<close>.
\<close>

theorem invMixColumns_inverts_mixColumns:
  "(length s = 16 \<longrightarrow> invMixColumns (mixColumns s) = s \<and> mixColumns (invMixColumns s) = s) \<and>
   p XOR mul2 ! unat (mul2 ! unat (mul2 ! unat p)) = gf256_mul 0x09 p"
  by (simp add: invMixColumns_mixColumns mixColumns_invMixColumns gf256_mul_9 mul2_xtime)

theorem invMixColumns_inverts_mixColumns_witness:
  "length [0x00, 0x11, 0x22, 0x33, 0x44, 0x55, 0x66, 0x77, 0x88, 0x99, 0xAA, 0xBB, 0xCC, 0xDD,
           0xEE, 0xFF :: uint8_t] = 16 \<and>
   invMixColumns (mixColumns [0x00, 0x11, 0x22, 0x33, 0x44, 0x55, 0x66, 0x77, 0x88, 0x99, 0xAA,
           0xBB, 0xCC, 0xDD, 0xEE, 0xFF]) =
     [0x00, 0x11, 0x22, 0x33, 0x44, 0x55, 0x66, 0x77, 0x88, 0x99, 0xAA, 0xBB, 0xCC, 0xDD, 0xEE, 0xFF] \<and>
   mixColumns (invMixColumns [0x00, 0x11, 0x22, 0x33, 0x44, 0x55, 0x66, 0x77, 0x88, 0x99, 0xAA,
           0xBB, 0xCC, 0xDD, 0xEE, 0xFF]) =
     [0x00, 0x11, 0x22, 0x33, 0x44, 0x55, 0x66, 0x77, 0x88, 0x99, 0xAA, 0xBB, 0xCC, 0xDD, 0xEE, 0xFF] \<and>
   (0x57 :: uint8_t) XOR mul2 ! unat (mul2 ! unat (mul2 ! unat (0x57 :: uint8_t))) = gf256_mul 0x09 0x57"
  using invMixColumns_inverts_mixColumns
    [of "[0x00, 0x11, 0x22, 0x33, 0x44, 0x55, 0x66, 0x77, 0x88, 0x99, 0xAA, 0xBB, 0xCC, 0xDD,
          0xEE, 0xFF]" "0x57"]
  by simp



section \<open>AES: decryption undoes encryption\<close>

lemma length_mixCol: "length (mixCol b0 b1 b2 b3) = 4"
  by (simp add: mixCol_def)

lemma length_invMixCol: "length (invMixCol b0 b1 b2 b3) = 4"
  by (simp add: invMixCol_def)

lemma aes_lengths:
  assumes "length s = 16"
  shows "length (subBytes s) = 16" "length (invSubBytes s) = 16"
    "length (shiftRows s) = 16" "length (invShiftRows s) = 16"
    "length (mixColumns s) = 16" "length (invMixColumns s) = 16"
    "length (addRoundKey s kw off) = 16"
proof -
  from list16 [OF assms] obtain a0 a1 a2 a3 a4 a5 a6 a7 a8 a9 a10 a11 a12 a13 a14 a15
    where s: "s = [a0, a1, a2, a3, a4, a5, a6, a7, a8, a9, a10, a11, a12, a13, a14, a15]"
    by blast
  show "length (subBytes s) = 16" "length (invSubBytes s) = 16"
    "length (shiftRows s) = 16" "length (invShiftRows s) = 16"
    "length (mixColumns s) = 16" "length (invMixColumns s) = 16"
    "length (addRoundKey s kw off) = 16"
    unfolding s
    by (simp_all add: subBytes16 invSubBytes16 shiftRows16 invShiftRows16 mixColumns16
          invMixColumns16 addRoundKey16 length_mixCol length_invMixCol)
qed

lemma addRoundKey_involution:
  assumes "length s = 16"
  shows "addRoundKey (addRoundKey s kw off) kw off = s"
proof -
  from list16 [OF assms] obtain a0 a1 a2 a3 a4 a5 a6 a7 a8 a9 a10 a11 a12 a13 a14 a15
    where s: "s = [a0, a1, a2, a3, a4, a5, a6, a7, a8, a9, a10, a11, a12, a13, a14, a15]"
    by blast
  show ?thesis
    unfolding s by (simp add: addRoundKey16 xor.assoc)
qed

lemma invSubShift_subShift:
  assumes "length s = 16"
  shows "invSubBytes (invShiftRows (shiftRows (subBytes s))) = s"
proof -
  from list16 [OF assms] obtain a0 a1 a2 a3 a4 a5 a6 a7 a8 a9 a10 a11 a12 a13 a14 a15
    where s: "s = [a0, a1, a2, a3, a4, a5, a6, a7, a8, a9, a10, a11, a12, a13, a14, a15]"
    by blast
  show ?thesis
    unfolding s by (simp add: subBytes16 shiftRows16 invShiftRows16 invSubBytes16 isbox_sbox)
qed

lemma subShift_invSubShift:
  assumes "length s = 16"
  shows "shiftRows (subBytes (invSubBytes (invShiftRows s))) = s"
proof -
  from list16 [OF assms] obtain a0 a1 a2 a3 a4 a5 a6 a7 a8 a9 a10 a11 a12 a13 a14 a15
    where s: "s = [a0, a1, a2, a3, a4, a5, a6, a7, a8, a9, a10, a11, a12, a13, a14, a15]"
    by blast
  show ?thesis
    unfolding s by (simp add: subBytes16 shiftRows16 invShiftRows16 invSubBytes16 sbox_isbox)
qed

text \<open>
  One decryption round applied after the final \<open>subBytes\<close>, \<open>shiftRows\<close> of an
  encryption round with the same index leaves the \<open>subBytes\<close>, \<open>shiftRows\<close> of the
  state before that encryption round.
\<close>

lemma aes_dec_round_enc_round:
  assumes "length t = 16"
  shows "invMixColumns (addRoundKey (invSubBytes (invShiftRows
           (shiftRows (subBytes (addRoundKey (mixColumns (shiftRows (subBytes t))) kw off)))))
           kw off) = shiftRows (subBytes t)"
  using assms
  by (simp add: invSubShift_subShift aes_lengths addRoundKey_involution invMixColumns_mixColumns)

lemma aes_enc_round_dec_round:
  assumes "length t = 16"
  shows "addRoundKey (mixColumns (shiftRows (subBytes (invSubBytes (invShiftRows
           (invMixColumns (addRoundKey (invSubBytes (invShiftRows t)) kw off)))))))
           kw off = invSubBytes (invShiftRows t)"
  using assms
  by (simp add: subShift_invSubShift aes_lengths addRoundKey_involution mixColumns_invMixColumns)

lemma length_aesEncryptRounds:
  "length state = 16 \<Longrightarrow> length (aesEncryptRounds ctx i state) = 16"
proof (induction ctx i state rule: aesEncryptRounds.induct)
  case (1 ctx i state)
  show ?case
  proof (cases "i < aes_nr ctx")
    case True
    with "1.IH" "1.prems" show ?thesis
      by (subst aesEncryptRounds.simps) (simp add: aes_lengths)
  next
    case False
    with "1.prems" show ?thesis
      by (subst aesEncryptRounds.simps) simp
  qed
qed

lemma length_aesDecryptRounds:
  "length state = 16 \<Longrightarrow> length (aesDecryptRounds ctx j state) = 16"
  by (induction j arbitrary: state) (simp_all add: aes_lengths)

lemma aes_dec_rounds_enc_rounds:
  "length t = 16 \<Longrightarrow> 1 \<le> i \<Longrightarrow> i \<le> aes_nr ctx \<Longrightarrow>
   aesDecryptRounds ctx (aes_nr ctx - 1) (shiftRows (subBytes (aesEncryptRounds ctx i t)))
     = aesDecryptRounds ctx (i - 1) (shiftRows (subBytes t))"
proof (induction ctx i t rule: aesEncryptRounds.induct)
  case (1 ctx i state)
  show ?case
  proof (cases "i < aes_nr ctx")
    case True
    let ?r = "addRoundKey (mixColumns (shiftRows (subBytes state))) (aes_w ctx) (4 * i)"
    have len: "length ?r = 16" using "1.prems"(1) by (simp add: aes_lengths)
    have "aesDecryptRounds ctx (aes_nr ctx - 1)
            (shiftRows (subBytes (aesEncryptRounds ctx i state)))
          = aesDecryptRounds ctx (aes_nr ctx - 1)
            (shiftRows (subBytes (aesEncryptRounds ctx (i + 1) ?r)))"
      using True by (subst aesEncryptRounds.simps) simp
    also have "\<dots> = aesDecryptRounds ctx (i + 1 - 1) (shiftRows (subBytes ?r))"
      using "1.IH" [OF True len] True by simp
    also have "\<dots> = aesDecryptRounds ctx i (shiftRows (subBytes ?r))"
      by simp
    also have "\<dots> = aesDecryptRounds ctx (i - 1) (shiftRows (subBytes state))"
    proof -
      from "1.prems"(2) obtain k where k: "i = Suc k" by (cases i) simp_all
      show ?thesis
        unfolding k using "1.prems"(1) by (simp add: aes_dec_round_enc_round)
    qed
    finally show ?thesis .
  next
    case False
    with "1.prems"(3) have "i = aes_nr ctx" by simp
    then show ?thesis by (subst aesEncryptRounds.simps) simp
  qed
qed

lemma aes_enc_rounds_dec_rounds:
  "length t = 16 \<Longrightarrow> j < aes_nr ctx \<Longrightarrow>
   aesEncryptRounds ctx 1 (invSubBytes (invShiftRows (aesDecryptRounds ctx j t)))
     = aesEncryptRounds ctx (j + 1) (invSubBytes (invShiftRows t))"
proof (induction j arbitrary: t)
  case 0
  then show ?case by simp
next
  case (Suc j)
  let ?d = "invMixColumns (addRoundKey (invSubBytes (invShiftRows t)) (aes_w ctx) (4 * Suc j))"
  have len: "length ?d = 16" using Suc.prems by (simp add: aes_lengths)
  have "aesEncryptRounds ctx 1 (invSubBytes (invShiftRows (aesDecryptRounds ctx (Suc j) t)))
        = aesEncryptRounds ctx (j + 1) (invSubBytes (invShiftRows ?d))"
    using Suc.IH [OF len] Suc.prems by simp
  also have "\<dots> = aesEncryptRounds ctx (j + 1 + 1)
        (addRoundKey (mixColumns (shiftRows (subBytes (invSubBytes (invShiftRows ?d)))))
           (aes_w ctx) (4 * (j + 1)))"
    using Suc.prems by (subst aesEncryptRounds.simps) simp
  also have "\<dots> = aesEncryptRounds ctx (Suc j + 1) (invSubBytes (invShiftRows t))"
    using Suc.prems by (simp add: aes_enc_round_dec_round)
  finally show ?case .
qed

lemma usub_mod_minus:
  fixes a b n :: nat
  assumes "b \<le> a" "a < n"
  shows "(a + n - b mod n) mod n = a - b"
proof -
  from assms have b: "b mod n = b" by simp
  from assms have "a + n - b = (a - b) + n" by simp
  then have "(a + n - b) mod n = (a - b) mod n" by simp
  also from assms have "\<dots> = a - b" by simp
  finally show ?thesis by (simp only: b)
qed

lemma usub32_minus: "b \<le> a \<Longrightarrow> a < 2 ^ 32 \<Longrightarrow> usub32 a b = a - b"
  unfolding usub32_def by (rule usub_mod_minus)

text \<open>The round trip for any ctx with a round count between 1 and \<open>2^32 - 1\<close>.\<close>

lemma aes_decrypt_encrypt:
  assumes "length p = 16" "1 \<le> aes_nr ctx" "aes_nr ctx < 2 ^ 32"
  shows "snd (aesDecryptBlock ctx (snd (aesEncryptBlock ctx p))) = p"
proof -
  let ?w = "aes_w ctx" and ?n = "aes_nr ctx"
  let ?s0 = "addRoundKey p ?w 0"
  let ?x = "aesEncryptRounds ctx 1 ?s0"
  have l0: "length ?s0 = 16" using assms(1) by (simp add: aes_lengths)
  have lx: "length ?x = 16" using l0 by (rule length_aesEncryptRounds)
  have lb: "length (shiftRows (subBytes ?x)) = 16" using lx by (simp add: aes_lengths)
  have enc: "snd (aesEncryptBlock ctx p) = addRoundKey (shiftRows (subBytes ?x)) ?w (4 * ?n)"
    using assms(1) lb by (simp add: aesEncryptBlock_def AES_BLOCK_SIZE_def Let_def aes_lengths)
  have lc: "length (addRoundKey (shiftRows (subBytes ?x)) ?w (4 * ?n)) = 16"
    using lb by (simp add: aes_lengths)
  have "aesDecryptRounds ctx (?n - 1) (shiftRows (subBytes ?x))
        = aesDecryptRounds ctx (1 - 1) (shiftRows (subBytes ?s0))"
    using aes_dec_rounds_enc_rounds [OF l0, of 1 ctx] assms(2) by simp
  then have dr: "aesDecryptRounds ctx (?n - 1) (shiftRows (subBytes ?x)) = shiftRows (subBytes ?s0)"
    by simp
  have "snd (aesDecryptBlock ctx (snd (aesEncryptBlock ctx p)))
        = addRoundKey (invSubBytes (invShiftRows
            (aesDecryptRounds ctx (usub32 ?n 1)
               (addRoundKey (addRoundKey (shiftRows (subBytes ?x)) ?w (4 * ?n)) ?w (4 * ?n))))) ?w 0"
    unfolding enc using lc lb
    by (simp add: aesDecryptBlock_def AES_BLOCK_SIZE_def Let_def aes_lengths
          length_aesDecryptRounds addRoundKey_involution)
  also have "\<dots> = addRoundKey (invSubBytes (invShiftRows (shiftRows (subBytes ?s0)))) ?w 0"
    using lb assms(2,3) dr by (simp add: addRoundKey_involution usub32_minus)
  also have "\<dots> = p"
    using l0 assms(1) by (simp add: invSubShift_subShift addRoundKey_involution)
  finally show ?thesis .
qed

lemma aes_encrypt_decrypt:
  assumes "length c = 16" "1 \<le> aes_nr ctx" "aes_nr ctx < 2 ^ 32"
  shows "snd (aesEncryptBlock ctx (snd (aesDecryptBlock ctx c))) = c"
proof -
  let ?w = "aes_w ctx" and ?n = "aes_nr ctx"
  let ?c0 = "addRoundKey c ?w (4 * ?n)"
  let ?y = "aesDecryptRounds ctx (?n - 1) ?c0"
  have l0: "length ?c0 = 16" using assms(1) by (simp add: aes_lengths)
  have ly: "length ?y = 16" using l0 by (rule length_aesDecryptRounds)
  have la: "length (invSubBytes (invShiftRows ?y)) = 16" using ly by (simp add: aes_lengths)
  have dec: "snd (aesDecryptBlock ctx c) = addRoundKey (invSubBytes (invShiftRows ?y)) ?w 0"
    using assms la by (simp add: aesDecryptBlock_def AES_BLOCK_SIZE_def Let_def aes_lengths usub32_minus)
  have "aesEncryptRounds ctx 1 (invSubBytes (invShiftRows ?y))
        = aesEncryptRounds ctx (?n - 1 + 1) (invSubBytes (invShiftRows ?c0))"
    using aes_enc_rounds_dec_rounds [OF l0, of "?n - 1" ctx] assms(2) by simp
  also have "\<dots> = invSubBytes (invShiftRows ?c0)"
    using assms(2) by (subst aesEncryptRounds.simps) simp
  finally have er: "aesEncryptRounds ctx 1 (invSubBytes (invShiftRows ?y))
        = invSubBytes (invShiftRows ?c0)" .
  have "snd (aesEncryptBlock ctx (snd (aesDecryptBlock ctx c)))
        = addRoundKey (shiftRows (subBytes (aesEncryptRounds ctx 1
            (addRoundKey (addRoundKey (invSubBytes (invShiftRows ?y)) ?w 0) ?w 0)))) ?w (4 * ?n)"
    unfolding dec using la
    by (simp add: aesEncryptBlock_def AES_BLOCK_SIZE_def Let_def aes_lengths
          length_aesEncryptRounds addRoundKey_involution)
  also have "\<dots> = addRoundKey (shiftRows (subBytes (invSubBytes (invShiftRows ?c0)))) ?w (4 * ?n)"
    using la er by (simp add: addRoundKey_involution)
  also have "\<dots> = c"
    using l0 assms(1) by (simp add: subShift_invSubShift addRoundKey_involution)
  finally show ?thesis .
qed



section \<open>AES: the key expansion loop\<close>

lemma length_rcon: "length rcon = 11"
  by (simp add: rcon_def)

lemma aesKeyTemp_Some:
  assumes "0 < Nk" "i < 11 * Nk"
  shows "aesKeyTemp Nk i t =
     Some (if i mod Nk = 0 then subWord (rotWord t) XOR rcon ! (i div Nk)
           else if Nk > 6 \<and> i mod Nk = 4 then subWord t else t)"
proof -
  from assms have "i div Nk < 11"
    by (simp add: less_mult_imp_div_less mult.commute)
  then show ?thesis
    by (simp add: aesKeyTemp_def rd_def length_rcon)
qed

text \<open>
  Started at \<open>i\<close> with \<open>keyLength \<le> i\<close>, on an array that holds at least
  \<open>keyScheduleSize\<close> words, the loop never leaves the arrays; it keeps the words
  below \<open>i\<close> and at or above \<open>keyScheduleSize\<close>, and every word it writes
  satisfies the recurrence.
\<close>

lemma aesKeyExpansion_correct:
  "0 < Nk \<Longrightarrow> N \<le> 11 * Nk \<Longrightarrow> N < 2 ^ 32 \<Longrightarrow> Nk \<le> i \<Longrightarrow> N \<le> length w \<Longrightarrow>
   \<exists>w'. aesKeyExpansion Nk N i w = Some w' \<and> length w' = length w \<and>
     (\<forall>j. j < i \<or> N \<le> j \<longrightarrow> w' ! j = w ! j) \<and>
     (\<forall>j. i \<le> j \<and> j < N \<longrightarrow>
        w' ! j = w' ! (j - Nk) XOR
          (if j mod Nk = 0 then subWord (rotWord (w' ! (j - 1))) XOR rcon ! (j div Nk)
           else if Nk > 6 \<and> j mod Nk = 4 then subWord (w' ! (j - 1)) else w' ! (j - 1)))"
proof (induction Nk N i w rule: aesKeyExpansion.induct)
  case (1 Nk N i w)
  note pos = "1.prems"(1) and n11 = "1.prems"(2) and n32 = "1.prems"(3)
    and ki = "1.prems"(4) and nl = "1.prems"(5)
  show ?case
  proof (cases "i < N")
    case False
    then show ?thesis
      by (subst aesKeyExpansion.simps) auto
  next
    case True
    let ?t = "if i mod Nk = 0 then subWord (rotWord (w ! (i - 1))) XOR rcon ! (i div Nk)
              else if Nk > 6 \<and> i mod Nk = 4 then subWord (w ! (i - 1)) else w ! (i - 1)"
    let ?w1 = "w[i := w ! (i - Nk) XOR ?t]"
    from True n32 have i32: "i < 2 ^ 32" by simp
    from pos ki have i1: "1 \<le> i" by simp
    have u1: "usub32 i 1 = i - 1" using i1 i32 by (rule usub32_minus)
    have uk: "usub32 i Nk = i - Nk" using ki i32 by (rule usub32_minus)
    from True nl have il: "i < length w" by simp
    have r1: "rd w (usub32 i 1) = Some (w ! (i - 1))"
      unfolding u1 rd_def using il by simp
    have rk: "rd w (usub32 i Nk) = Some (w ! (i - Nk))"
      unfolding uk rd_def using il by simp
    have kt: "aesKeyTemp Nk i (w ! (i - 1)) = Some ?t"
      using pos True n11 by (intro aesKeyTemp_Some) simp_all
    have wr1: "wr w i (w ! (i - Nk) XOR ?t) = Some ?w1"
      using il by (simp add: wr_def)
    have unfold: "aesKeyExpansion Nk N i w = aesKeyExpansion Nk N (i + 1) ?w1"
      by (subst aesKeyExpansion.simps) (simp only: True if_True r1 rk kt wr1 option.case)
    have "Nk \<le> i + 1" using ki by simp
    moreover have "N \<le> length ?w1" using nl by simp
    ultimately obtain w' where
      w': "aesKeyExpansion Nk N (i + 1) ?w1 = Some w'" "length w' = length ?w1"
        "\<forall>j. j < i + 1 \<or> N \<le> j \<longrightarrow> w' ! j = ?w1 ! j"
        "\<forall>j. i + 1 \<le> j \<and> j < N \<longrightarrow>
           w' ! j = w' ! (j - Nk) XOR
             (if j mod Nk = 0 then subWord (rotWord (w' ! (j - 1))) XOR rcon ! (j div Nk)
              else if Nk > 6 \<and> j mod Nk = 4 then subWord (w' ! (j - 1)) else w' ! (j - 1))"
      using "1.IH" [OF True r1 kt rk wr1 pos n11 n32] by blast
    have keep: "w' ! j = w ! j" if "j < i \<or> N \<le> j" for j
    proof -
      from that True have "j \<noteq> i" by auto
      moreover from that have "w' ! j = ?w1 ! j" using w'(3) by auto
      ultimately show ?thesis by simp
    qed
    have wi: "w' ! i = w ! (i - Nk) XOR ?t"
      using w'(3) il by simp
    have p1: "w' ! (i - 1) = w ! (i - 1)" using keep [of "i - 1"] i1 by simp
    have pk: "w' ! (i - Nk) = w ! (i - Nk)" using keep [of "i - Nk"] pos i1 by simp
    have rec: "w' ! j = w' ! (j - Nk) XOR
             (if j mod Nk = 0 then subWord (rotWord (w' ! (j - 1))) XOR rcon ! (j div Nk)
              else if Nk > 6 \<and> j mod Nk = 4 then subWord (w' ! (j - 1)) else w' ! (j - 1))"
      if "i \<le> j \<and> j < N" for j
    proof (cases "j = i")
      case True
      then show ?thesis by (simp only: wi p1 pk)
    next
      case False
      with that have "i + 1 \<le> j \<and> j < N" by simp
      with w'(4) show ?thesis by blast
    qed
    from w'(1) w'(2) keep rec show ?thesis
      by (simp only: unfold) (intro exI [of _ w'] conjI allI impI; simp)
  qed
qed

lemma aes_key_sizes:
  assumes "length key = 16 \<or> length key = 24 \<or> length key = 32"
  shows "0 < length key div 4"
    "4 * (length key div 4 + 6 + 1) \<le> 11 * (length key div 4)"
    "4 * (length key div 4 + 6 + 1) < (2 :: nat) ^ 32"
    "4 * (length key div 4 + 6 + 1) \<le> 60"
  using assms by auto

lemma memcpy_words_nth:
  "j < n \<Longrightarrow> memcpy_words dst src n ! j = load32h (take 4 (drop (4 * j) src))"
  by (simp add: memcpy_words_def nth_append)

lemma length_memcpy_words:
  "n \<le> length dst \<Longrightarrow> length (memcpy_words dst src n) = length dst"
  by (simp add: memcpy_words_def)



section \<open>AES: initialisation\<close>

lemma aesInitSchedule_correct:
  assumes len: "length key = 16 \<or> length key = 24 \<or> length key = 32"
    and nr: "aes_nr ctx = length key div 4 + 6"
    and wl: "4 * (aes_nr ctx + 1) \<le> length (aes_w ctx)"
  shows "\<exists>w'. aesInitSchedule ctx key = Some (NO_ERROR, ctx\<lparr>aes_w := w'\<rparr>) \<and>
     length w' = length (aes_w ctx) \<and>
     (\<forall>j < length key div 4. w' ! j = load32h (take 4 (drop (4 * j) key))) \<and>
     (\<forall>j. 4 * (aes_nr ctx + 1) \<le> j \<longrightarrow> w' ! j = aes_w ctx ! j) \<and>
     (\<forall>j. length key div 4 \<le> j \<and> j < 4 * (aes_nr ctx + 1) \<longrightarrow>
        w' ! j = w' ! (j - length key div 4) XOR
          (if j mod (length key div 4) = 0
           then subWord (rotWord (w' ! (j - 1))) XOR rcon ! (j div (length key div 4))
           else if length key div 4 > 6 \<and> j mod (length key div 4) = 4
           then subWord (w' ! (j - 1)) else w' ! (j - 1)))"
proof -
  let ?Nk = "length key div 4" and ?N = "4 * (aes_nr ctx + 1)"
  let ?w1 = "memcpy_words (aes_w ctx) key ?Nk"
  have N: "?N = 4 * (?Nk + 6 + 1)" using nr by simp
  have k1: "0 < ?Nk" and k2: "?N \<le> 11 * ?Nk" and k3: "?N < 2 ^ 32"
    unfolding N using aes_key_sizes [OF len] by blast+
  have kn: "?Nk \<le> ?N" using nr by simp
  with wl have kl: "?Nk \<le> length (aes_w ctx)" by simp
  then have l1: "length ?w1 = length (aes_w ctx)" by (rule length_memcpy_words)
  with wl have nl: "?N \<le> length ?w1" by simp
  from aesKeyExpansion_correct [OF k1 k2 k3 order_refl nl] obtain w' where
    w': "aesKeyExpansion ?Nk ?N ?Nk ?w1 = Some w'" "length w' = length ?w1"
      "\<forall>j. j < ?Nk \<or> ?N \<le> j \<longrightarrow> w' ! j = ?w1 ! j"
      "\<forall>j. ?Nk \<le> j \<and> j < ?N \<longrightarrow>
         w' ! j = w' ! (j - ?Nk) XOR
           (if j mod ?Nk = 0 then subWord (rotWord (w' ! (j - 1))) XOR rcon ! (j div ?Nk)
            else if ?Nk > 6 \<and> j mod ?Nk = 4 then subWord (w' ! (j - 1)) else w' ! (j - 1))"
    by blast
  have run: "aesInitSchedule ctx key = Some (NO_ERROR, ctx\<lparr>aes_w := w'\<rparr>)"
    using kl w'(1) by (simp add: aesInitSchedule_def Let_def)
  have low: "w' ! j = load32h (take 4 (drop (4 * j) key))" if "j < ?Nk" for j
    using that w'(3) by (simp add: memcpy_words_nth)
  have high: "w' ! j = aes_w ctx ! j" if "?N \<le> j" for j
  proof -
    from that kn have "?Nk \<le> j" by simp
    moreover from that w'(3) have "w' ! j = ?w1 ! j" by blast
    ultimately show ?thesis using kl by (simp add: memcpy_words_def nth_append min_def)
  qed
  from run w'(2) l1 low high w'(4) show ?thesis
    by (intro exI [of _ w'] conjI allI impI) simp_all
qed

lemma aesInit_reject:
  "length key \<noteq> 16 \<Longrightarrow> length key \<noteq> 24 \<Longrightarrow> length key \<noteq> 32 \<Longrightarrow>
   aesInit ctx key = Some (ERROR_INVALID_KEY_LENGTH, ctx)"
  by (simp add: aesInit_def)

lemma aesInit_unfold:
  assumes "length key = 16 \<or> length key = 24 \<or> length key = 32"
  shows "aesInit ctx key = aesInitSchedule (ctx\<lparr>aes_nr := length key div 4 + 6\<rparr>) key"
  using assms by (auto simp add: aesInit_def)

lemma aesInit_schedule:
  assumes "length key = 16 \<or> length key = 24 \<or> length key = 32"
    and "length (aes_w ctx0) = 60"
  shows "\<exists>ctx. aesInit ctx0 key = Some (NO_ERROR, ctx) \<and>
     aes_nr ctx = (if length key = 16 then 10 else if length key = 24 then 12 else 14) \<and>
     (\<forall>j < length key div 4. aes_w ctx ! j = load32h (take 4 (drop (4 * j) key))) \<and>
     (\<forall>i. length key div 4 \<le> i \<and> i < 4 * (aes_nr ctx + 1) \<longrightarrow>
        aes_w ctx ! i = aes_w ctx ! (i - length key div 4) XOR
          (if i mod (length key div 4) = 0
           then subWord (rotWord (aes_w ctx ! (i - 1))) XOR rcon ! (i div (length key div 4))
           else if length key div 4 > 6 \<and> i mod (length key div 4) = 4
           then subWord (aes_w ctx ! (i - 1)) else aes_w ctx ! (i - 1)))"
proof -
  let ?c = "ctx0\<lparr>aes_nr := length key div 4 + 6\<rparr>"
  have nr: "aes_nr ?c = length key div 4 + 6" by simp
  have "4 * (length key div 4 + 6 + 1) \<le> 60"
    using assms(1) by (rule aes_key_sizes(4))
  then have wl: "4 * (aes_nr ?c + 1) \<le> length (aes_w ?c)"
    using assms(2) by simp
  from aesInitSchedule_correct [OF assms(1) nr wl] obtain w' where
    w': "aesInitSchedule ?c key = Some (NO_ERROR, ?c\<lparr>aes_w := w'\<rparr>)"
      "\<forall>j < length key div 4. w' ! j = load32h (take 4 (drop (4 * j) key))"
      "\<forall>j. length key div 4 \<le> j \<and> j < 4 * (aes_nr ?c + 1) \<longrightarrow>
        w' ! j = w' ! (j - length key div 4) XOR
          (if j mod (length key div 4) = 0
           then subWord (rotWord (w' ! (j - 1))) XOR rcon ! (j div (length key div 4))
           else if length key div 4 > 6 \<and> j mod (length key div 4) = 4
           then subWord (w' ! (j - 1)) else w' ! (j - 1))"
    by blast
  define ctx where "ctx = ?c\<lparr>aes_w := w'\<rparr>"
  have aw: "aes_w ctx = w'" and an: "aes_nr ctx = aes_nr ?c"
    by (simp_all add: ctx_def)
  have nrv: "aes_nr ?c = (if length key = 16 then 10 else if length key = 24 then 12 else 14)"
    unfolding nr using assms(1) by (elim disjE) simp_all
  have "aesInit ctx0 key = Some (NO_ERROR, ctx)"
    using w'(1) by (simp only: aesInit_unfold [OF assms(1)] ctx_def)
  moreover have "aes_nr ctx = (if length key = 16 then 10 else if length key = 24 then 12 else 14)"
    by (simp only: an nrv)
  moreover note w'(2) [folded aw] w'(3) [folded aw an]
  ultimately show ?thesis by blast
qed


text \<open>
  Claim C5. After \<open>aesInit\<close> succeeds on a key of 16, 24 or 32 bytes, \<open>nr\<close> is 10, 12 or
  14; the first \<open>keyLength / 4\<close> words of \<open>w\<close> are the key bytes read as host words;
  and every word \<open>w[i]\<close> with \<open>keyLength / 4 \<le> i < 4 * (nr + 1)\<close> is \<open>w[i - Nk] XOR t\<close>,
  where \<open>t\<close> is \<open>subWord(rotWord(w[i - 1])) XOR rcon[i / Nk]\<close> if \<open>i mod Nk = 0\<close>,
  \<open>subWord(w[i - 1])\<close> if \<open>Nk > 6\<close> and \<open>i mod Nk = 4\<close>, and \<open>w[i - 1]\<close> otherwise. The
  context's array \<open>w\<close> has its 60 words.
\<close>

theorem aesInit_key_schedule:
  assumes "length key = 16 \<or> length key = 24 \<or> length key = 32"
    and "length (aes_w ctx0) = 60"
  shows "\<exists>ctx. aesInit ctx0 key = Some (NO_ERROR, ctx) \<and>
     aes_nr ctx = (if length key = 16 then 10 else if length key = 24 then 12 else 14) \<and>
     (\<forall>j < length key div 4. aes_w ctx ! j = load32h (take 4 (drop (4 * j) key))) \<and>
     (\<forall>i. length key div 4 \<le> i \<and> i < 4 * (aes_nr ctx + 1) \<longrightarrow>
        aes_w ctx ! i = aes_w ctx ! (i - length key div 4) XOR
          (if i mod (length key div 4) = 0
           then subWord (rotWord (aes_w ctx ! (i - 1))) XOR rcon ! (i div (length key div 4))
           else if length key div 4 > 6 \<and> i mod (length key div 4) = 4
           then subWord (aes_w ctx ! (i - 1)) else aes_w ctx ! (i - 1)))"
  using assms by (rule aesInit_schedule)



theorem aesInit_key_schedule_witness:
  "(length aes_key128 = 16 \<or> length aes_key128 = 24 \<or> length aes_key128 = 32) \<and>
   length (aes_w aes_context0) = 60 \<and>
   (\<exists>ctx. aesInit aes_context0 aes_key128 = Some (NO_ERROR, ctx) \<and> aes_nr ctx = 10 \<and>
      aes_w ctx ! 0 = load32h (take 4 (drop 0 aes_key128)) \<and>
      aes_w ctx ! 4 = aes_w ctx ! 0 XOR (subWord (rotWord (aes_w ctx ! 3)) XOR rcon ! 1) \<and>
      aes_w ctx ! 5 = aes_w ctx ! 1 XOR aes_w ctx ! 4)"
proof -
  have k: "length aes_key128 = 16 \<or> length aes_key128 = 24 \<or> length aes_key128 = 32"
    by (simp add: aes_key128_def)
  have l: "length (aes_w aes_context0) = 60"
    by (simp add: aes_context0_def)
  have n: "length aes_key128 = 16" by (simp add: aes_key128_def)
  from aesInit_key_schedule [OF k l] obtain ctx where
    c: "aesInit aes_context0 aes_key128 = Some (NO_ERROR, ctx)"
      "aes_nr ctx = (if length aes_key128 = 16 then 10 else if length aes_key128 = 24 then 12 else 14)"
      "\<forall>j < length aes_key128 div 4. aes_w ctx ! j = load32h (take 4 (drop (4 * j) aes_key128))"
      "\<forall>i. length aes_key128 div 4 \<le> i \<and> i < 4 * (aes_nr ctx + 1) \<longrightarrow>
        aes_w ctx ! i = aes_w ctx ! (i - length aes_key128 div 4) XOR
          (if i mod (length aes_key128 div 4) = 0
           then subWord (rotWord (aes_w ctx ! (i - 1))) XOR rcon ! (i div (length aes_key128 div 4))
           else if length aes_key128 div 4 > 6 \<and> i mod (length aes_key128 div 4) = 4
           then subWord (aes_w ctx ! (i - 1)) else aes_w ctx ! (i - 1))"
    by blast
  from c(2) have nr: "aes_nr ctx = 10" by (simp add: n)
  from c(3) have w0: "aes_w ctx ! 0 = load32h (take 4 (drop 0 aes_key128))"
    unfolding n by (drule_tac x = 0 in spec) simp
  from c(4) have w4: "aes_w ctx ! 4 = aes_w ctx ! 0 XOR (subWord (rotWord (aes_w ctx ! 3)) XOR rcon ! 1)"
    unfolding n nr by (drule_tac x = 4 in spec) simp
  from c(4) have w5: "aes_w ctx ! 5 = aes_w ctx ! 1 XOR aes_w ctx ! 4"
    unfolding n nr by (drule_tac x = 5 in spec) simp
  from k l c(1) nr w0 w4 w5 show ?thesis by blast
qed

text \<open>
  Claim C10. For a key of 16, 24 or 32 bytes, with \<open>Nk = keyLength / 4\<close>,
  \<open>nr = Nk + 6\<close> and \<open>N = 4 * (nr + 1)\<close>, every iteration \<open>Nk \<le> i < N\<close> of the key
  expansion loop has its \<open>rcon\<close> index \<open>i / Nk\<close> between 1 and 10, inside the table of
  11 entries, and equal to 10 only when \<open>Nk = 4\<close>; the indices \<open>i - 1\<close>,
  \<open>i - Nk\<close> and \<open>i\<close> of \<open>w\<close> are below \<open>N\<close>. So the loop with checked indexing
  returns a schedule even on an array of exactly \<open>N\<close> words, and \<open>aesInit\<close> never
  reaches an access outside an array.
\<close>

theorem aesInit_accesses_in_bounds:
  assumes "length key = 16 \<or> length key = 24 \<or> length key = 32"
  shows "(\<forall>i. length key div 4 \<le> i \<and> i < 4 * (length key div 4 + 6 + 1) \<longrightarrow>
            1 \<le> i div (length key div 4) \<and> i div (length key div 4) \<le> 10 \<and>
            i div (length key div 4) < length rcon \<and>
            (i div (length key div 4) = 10 \<longrightarrow> length key div 4 = 4) \<and>
            usub32 i 1 < 4 * (length key div 4 + 6 + 1) \<and>
            usub32 i (length key div 4) < 4 * (length key div 4 + 6 + 1)) \<and>
         (\<forall>w. length w = 4 * (length key div 4 + 6 + 1) \<longrightarrow>
            aesKeyExpansion (length key div 4) (4 * (length key div 4 + 6 + 1))
              (length key div 4) w \<noteq> None) \<and>
         (\<forall>ctx. length (aes_w ctx) = 60 \<longrightarrow> aesInit ctx key \<noteq> None)"
proof (intro conjI allI impI)
  let ?Nk = "length key div 4" and ?N = "4 * (length key div 4 + 6 + 1)"
  note sz = aes_key_sizes [OF assms]
  fix i assume i: "?Nk \<le> i \<and> i < ?N"
  from i sz(1) show "1 \<le> i div ?Nk"
    by (simp add: Suc_le_eq div_greater_zero_iff)
  from i sz(2) have d: "i div ?Nk < 11"
    by (simp add: less_mult_imp_div_less mult.commute)
  then show "i div ?Nk \<le> 10" by simp
  from d show "i div ?Nk < length rcon" by (simp add: length_rcon)
  from i sz(3) have i32: "i < 2 ^ 32" by simp
  from i have il: "i < ?N" by blast
  from i sz(1) have u1: "usub32 i 1 = i - 1"
    by (intro usub32_minus i32) simp
  have "i - 1 \<le> i" by simp
  then show "usub32 i 1 < ?N"
    unfolding u1 using il by (rule le_less_trans)
  from i have uk: "usub32 i ?Nk = i - ?Nk"
    by (intro usub32_minus i32) simp
  have "i - ?Nk \<le> i" by simp
  then show "usub32 i ?Nk < ?N"
    unfolding uk using il by (rule le_less_trans)
  show "?Nk = 4" if t: "i div ?Nk = 10"
  proof -
    have "?Nk * (i div ?Nk) \<le> i" by simp
    with t i have "?Nk * 10 < ?N" by simp
    with assms show ?thesis by auto
  qed
next
  let ?Nk = "length key div 4" and ?N = "4 * (length key div 4 + 6 + 1)"
  note sz = aes_key_sizes [OF assms]
  fix w :: "uint32_t list" assume "length w = ?N"
  then have "?N \<le> length w" by simp
  from aesKeyExpansion_correct [OF sz(1) sz(2) sz(3) order_refl this]
  show "aesKeyExpansion ?Nk ?N ?Nk w \<noteq> None" by auto
next
  fix ctx :: AesContext assume "length (aes_w ctx) = 60"
  from aesInit_schedule [OF assms this] show "aesInit ctx key \<noteq> None" by auto
qed

theorem aesInit_accesses_in_bounds_witness:
  "(length aes_key128 = 16 \<or> length aes_key128 = 24 \<or> length aes_key128 = 32) \<and>
   1 \<le> (43 :: nat) div (length aes_key128 div 4) \<and> (43 :: nat) div (length aes_key128 div 4) \<le> 10 \<and>
   (43 :: nat) div (length aes_key128 div 4) < length rcon \<and>
   usub32 43 1 < 4 * (length aes_key128 div 4 + 6 + 1) \<and>
   usub32 43 (length aes_key128 div 4) < 4 * (length aes_key128 div 4 + 6 + 1) \<and>
   aesKeyExpansion (length aes_key128 div 4) (4 * (length aes_key128 div 4 + 6 + 1))
     (length aes_key128 div 4) (replicate (4 * (length aes_key128 div 4 + 6 + 1)) 0) \<noteq> None \<and>
   aesInit aes_context0 aes_key128 \<noteq> None"
proof -
  have k: "length aes_key128 = 16 \<or> length aes_key128 = 24 \<or> length aes_key128 = 32"
    by (simp add: aes_key128_def)
  have i: "length aes_key128 div 4 \<le> (43 :: nat) \<and> (43 :: nat) < 4 * (length aes_key128 div 4 + 6 + 1)"
    by (simp add: aes_key128_def)
  have l: "length (aes_w aes_context0) = 60"
    by (simp add: aes_context0_def)
  have r: "length (replicate (4 * (length aes_key128 div 4 + 6 + 1)) (0 :: uint32_t)) =
      4 * (length aes_key128 div 4 + 6 + 1)"
    by simp
  from aesInit_accesses_in_bounds [OF k] i l r k show ?thesis by blast
qed



section \<open>Camellia: bytes and words\<close>

lemma LOAD32BE_STORE32BE: "LOAD32BE (STORE32BE x) = x"
  unfolding STORE32BE_def LOAD32BE_def
  apply simp
  apply (rule bit_word_eqI)
  subgoal for n
    by (cases "n < 8"; cases "n < 16"; cases "n < 24") (auto simp add: bit_simps not_less)
  done

lemma STORE32BE_LOAD32BE: "STORE32BE (LOAD32BE [a, b, c, d]) = [a, b, c, d]"
  unfolding STORE32BE_def LOAD32BE_def
  by (simp, intro conjI; rule bit_word_eqI; auto simp add: bit_simps dest: bit_imp_le_length)

section \<open>Camellia: the macros\<close>

lemma CAMELLIA_ROUND_eq:
  "CAMELLIA_ROUND (left1, left2, right1, right2) k1 k2 =
     (snd (CAMELLIA_P (CAMELLIA_S (left1 XOR k1, left2 XOR k2))) XOR right1,
      fst (CAMELLIA_P (CAMELLIA_S (left1 XOR k1, left2 XOR k2))) XOR right2,
      left1, left2)"
  by (simp add: CAMELLIA_ROUND_def Let_def split_beta)

lemma xor_cancel32: "(x :: uint32_t) XOR (x XOR y) = y"
  by (simp add: xor.assoc [symmetric])

lemma camelliaDecRound_ROUND: "camelliaDecRound (CAMELLIA_ROUND s k1 k2) k1 k2 = s"
  by (cases s) (simp add: camelliaDecRound_def camelliaSwap_def CAMELLIA_ROUND_eq xor_cancel32)

lemma ROUND_camelliaDecRound: "CAMELLIA_ROUND (camelliaDecRound s k1 k2) k1 k2 = s"
  by (cases s) (simp add: camelliaDecRound_def camelliaSwap_def CAMELLIA_ROUND_eq xor_cancel32)

lemma INV_FL_FL: "CAMELLIA_INV_FL (CAMELLIA_FL x kl kr) kl kr = x"
  by (cases x) (simp add: CAMELLIA_FL_def CAMELLIA_INV_FL_def Let_def xor.assoc)

lemma FL_INV_FL: "CAMELLIA_FL (CAMELLIA_INV_FL y kl kr) kl kr = y"
  by (cases y) (simp add: CAMELLIA_FL_def CAMELLIA_INV_FL_def Let_def xor.assoc)

lemma camelliaDecFL_EncFL: "camelliaDecFL ks q (camelliaEncFL ks q s) = s"
  by (cases s) (simp add: camelliaDecFL_def camelliaEncFL_def INV_FL_FL FL_INV_FL)

lemma camelliaEncFL_DecFL: "camelliaEncFL ks q (camelliaDecFL ks q s) = s"
  by (cases s) (simp add: camelliaDecFL_def camelliaEncFL_def INV_FL_FL FL_INV_FL)

section \<open>Camellia: the round loops\<close>

lemma camelliaEncryptStep_eq:
  "camelliaEncryptStep ks i (p, s) =
     (if i = 7 \<or> i = 13 \<or> i = 19
      then (p + 6, camelliaEncFL ks (p + 2) (CAMELLIA_ROUND s (ks ! p) (ks ! (p + 1))))
      else (p + 2, CAMELLIA_ROUND s (ks ! p) (ks ! (p + 1))))"
  by (cases "CAMELLIA_ROUND s (ks ! p) (ks ! (p + 1))")
     (simp add: camelliaEncryptStep_def camelliaEncFL_def Let_def split_beta)

lemma camelliaDecryptStep_eq:
  "camelliaDecryptStep ks i (p, s) =
     (if i = 7 \<or> i = 13 \<or> i = 19
      then (p - 2 - 4, camelliaDecFL ks (p - 2 - 4)
              (camelliaDecRound s (ks ! (p - 2)) (ks ! (p - 2 + 1))))
      else (p - 2, camelliaDecRound s (ks ! (p - 2)) (ks ! (p - 2 + 1))))"
  by (cases s; cases "CAMELLIA_ROUND (camelliaSwap s) (ks ! (p - 2)) (ks ! (p - 2 + 1))")
     (simp add: camelliaDecryptStep_def camelliaDecFL_def camelliaDecRound_def camelliaSwap_def
        Let_def split_beta)

lemma camelliaEncryptRounds_numeral:
  "camelliaEncryptRounds ks (numeral n) ps =
     camelliaEncryptRounds ks (pred_numeral n) (camelliaEncryptStep ks (numeral n) ps)"
  by (simp add: numeral_eq_Suc)

lemma camelliaDecryptRounds_numeral:
  "camelliaDecryptRounds ks (numeral n) ps =
     camelliaDecryptRounds ks (pred_numeral n) (camelliaDecryptStep ks (numeral n) ps)"
  by (simp add: numeral_eq_Suc)

lemmas camellia_unroll =
  camelliaEncryptRounds_numeral camelliaDecryptRounds_numeral
  camelliaEncryptStep_eq camelliaDecryptStep_eq
  camelliaDecRound_ROUND ROUND_camelliaDecRound camelliaDecFL_EncFL camelliaEncFL_DecFL

lemma camellia_rounds_18:
  "fst (camelliaEncryptRounds ks 18 (4, s)) = 48"
  "camelliaDecryptRounds ks 18 (camelliaEncryptRounds ks 18 (4, s)) = (4, s)"
  "fst (camelliaDecryptRounds ks 18 (48, s)) = 4"
  "camelliaEncryptRounds ks 18 (camelliaDecryptRounds ks 18 (48, s)) = (48, s)"
  by (simp_all add: camellia_unroll)

lemma camellia_rounds_24:
  "fst (camelliaEncryptRounds ks 24 (4, s)) = 64"
  "camelliaDecryptRounds ks 24 (camelliaEncryptRounds ks 24 (4, s)) = (4, s)"
  "fst (camelliaDecryptRounds ks 24 (64, s)) = 4"
  "camelliaEncryptRounds ks 24 (camelliaDecryptRounds ks 24 (64, s)) = (64, s)"
  by (simp_all add: camellia_unroll)



section \<open>Camellia: decryption undoes encryption\<close>

lemma LOAD32BE_bytes:
  "LOAD32BE [ucast (drop_bit 24 x), ucast (drop_bit 16 x), ucast (drop_bit 8 x), ucast x] = x"
  using LOAD32BE_STORE32BE [of x] by (simp add: STORE32BE_def)

lemma camellia_output_words:
  "LOAD32BE (take 4 (drop 0 (STORE32BE a @ STORE32BE b @ STORE32BE c @ STORE32BE d))) = a"
  "LOAD32BE (take 4 (drop 4 (STORE32BE a @ STORE32BE b @ STORE32BE c @ STORE32BE d))) = b"
  "LOAD32BE (take 4 (drop 8 (STORE32BE a @ STORE32BE b @ STORE32BE c @ STORE32BE d))) = c"
  "LOAD32BE (take 4 (drop 12 (STORE32BE a @ STORE32BE b @ STORE32BE c @ STORE32BE d))) = d"
  by (simp_all add: STORE32BE_def LOAD32BE_bytes)

lemma camellia_input_bytes:
  assumes "length p = 16"
  shows "STORE32BE (LOAD32BE (take 4 (drop 0 p))) @ STORE32BE (LOAD32BE (take 4 (drop 4 p))) @
         STORE32BE (LOAD32BE (take 4 (drop 8 p))) @ STORE32BE (LOAD32BE (take 4 (drop 12 p))) = p"
proof -
  from list16 [OF assms] obtain a0 a1 a2 a3 a4 a5 a6 a7 a8 a9 a10 a11 a12 a13 a14 a15
    where p: "p = [a0, a1, a2, a3, a4, a5, a6, a7, a8, a9, a10, a11, a12, a13, a14, a15]"
    by blast
  show ?thesis
    unfolding p by (simp add: STORE32BE_LOAD32BE)
qed

text \<open>
  The block functions in terms of the round loops, for a state that is already split
  into words.
\<close>

lemma camelliaEncryptBlock_eq:
  assumes "camelliaEncryptRounds (cam_ks ctx) (cam_nr ctx)
             (4, (LOAD32BE (take 4 (drop 0 p)) XOR cam_ks ctx ! 0,
                  LOAD32BE (take 4 (drop 4 p)) XOR cam_ks ctx ! 1,
                  LOAD32BE (take 4 (drop 8 p)) XOR cam_ks ctx ! 2,
                  LOAD32BE (take 4 (drop 12 p)) XOR cam_ks ctx ! 3)) = (q, (a, b, c, d))"
  shows "snd (camelliaEncryptBlock ctx p) =
           STORE32BE (c XOR cam_ks ctx ! (q + 0)) @ STORE32BE (d XOR cam_ks ctx ! (q + 1)) @
           STORE32BE (a XOR cam_ks ctx ! (q + 2)) @ STORE32BE (b XOR cam_ks ctx ! (q + 3))"
  unfolding camelliaEncryptBlock_def Let_def assms by simp

lemma camelliaDecryptBlock_eq:
  assumes "camelliaDecryptRounds (cam_ks ctx) (cam_nr ctx)
             (if cam_nr ctx = 18 then 48 else 64,
              (LOAD32BE (take 4 (drop 8 c)) XOR cam_ks ctx ! ((if cam_nr ctx = 18 then 48 else 64) + 2),
               LOAD32BE (take 4 (drop 12 c)) XOR cam_ks ctx ! ((if cam_nr ctx = 18 then 48 else 64) + 3),
               LOAD32BE (take 4 (drop 0 c)) XOR cam_ks ctx ! ((if cam_nr ctx = 18 then 48 else 64) + 0),
               LOAD32BE (take 4 (drop 4 c)) XOR cam_ks ctx ! ((if cam_nr ctx = 18 then 48 else 64) + 1)))
           = (4, (l1, l2, r1, r2))"
  shows "snd (camelliaDecryptBlock ctx c) =
           STORE32BE (l1 XOR cam_ks ctx ! 0) @ STORE32BE (l2 XOR cam_ks ctx ! 1) @
           STORE32BE (r1 XOR cam_ks ctx ! 2) @ STORE32BE (r2 XOR cam_ks ctx ! 3)"
  unfolding camelliaDecryptBlock_def Let_def assms by (simp add: numeral_2_eq_2 numeral_3_eq_3)

lemma xor_twice32: "((x :: uint32_t) XOR y) XOR y = x"
  by (simp add: xor.assoc)

lemma camellia_decrypt_encrypt:
  assumes nr: "cam_nr ctx = 18 \<or> cam_nr ctx = 24" and len: "length p = 16"
  shows "snd (camelliaDecryptBlock ctx (snd (camelliaEncryptBlock ctx p))) = p"
proof -
  let ?ks = "cam_ks ctx"
  let ?q = "if cam_nr ctx = 18 then 48 else 64 :: nat"
  let ?s0 = "(LOAD32BE (take 4 (drop 0 p)) XOR ?ks ! 0, LOAD32BE (take 4 (drop 4 p)) XOR ?ks ! 1,
              LOAD32BE (take 4 (drop 8 p)) XOR ?ks ! 2, LOAD32BE (take 4 (drop 12 p)) XOR ?ks ! 3)"
  obtain q a b c d where e: "camelliaEncryptRounds ?ks (cam_nr ctx) (4, ?s0) = (q, (a, b, c, d))"
    by (metis prod.exhaust)
  from nr have q: "q = ?q"
    using camellia_rounds_18(1) [of ?ks ?s0] camellia_rounds_24(1) [of ?ks ?s0] e by auto
  from nr have rt: "camelliaDecryptRounds ?ks (cam_nr ctx) (?q, (a, b, c, d)) = (4, ?s0)"
    using camellia_rounds_18(2) [of ?ks ?s0] camellia_rounds_24(2) [of ?ks ?s0] e q by auto
  have enc: "snd (camelliaEncryptBlock ctx p) =
           STORE32BE (c XOR ?ks ! (?q + 0)) @ STORE32BE (d XOR ?ks ! (?q + 1)) @
           STORE32BE (a XOR ?ks ! (?q + 2)) @ STORE32BE (b XOR ?ks ! (?q + 3))"
    using camelliaEncryptBlock_eq [OF e] unfolding q .
  have "snd (camelliaDecryptBlock ctx (snd (camelliaEncryptBlock ctx p))) =
           STORE32BE (fst ?s0 XOR ?ks ! 0) @
           STORE32BE (fst (snd ?s0) XOR ?ks ! 1) @
           STORE32BE (fst (snd (snd ?s0)) XOR ?ks ! 2) @
           STORE32BE (snd (snd (snd ?s0)) XOR ?ks ! 3)"
    unfolding enc
    by (rule camelliaDecryptBlock_eq) (simp only: camellia_output_words xor_twice32 rt fst_conv snd_conv)
  also have "\<dots> = p"
    by (simp only: fst_conv snd_conv xor_twice32 camellia_input_bytes [OF len])
  finally show ?thesis .
qed

lemma camellia_encrypt_decrypt:
  assumes nr: "cam_nr ctx = 18 \<or> cam_nr ctx = 24" and len: "length c = 16"
  shows "snd (camelliaEncryptBlock ctx (snd (camelliaDecryptBlock ctx c))) = c"
proof -
  let ?ks = "cam_ks ctx"
  let ?q = "if cam_nr ctx = 18 then 48 else 64 :: nat"
  let ?c0 = "(LOAD32BE (take 4 (drop 8 c)) XOR ?ks ! (?q + 2),
              LOAD32BE (take 4 (drop 12 c)) XOR ?ks ! (?q + 3),
              LOAD32BE (take 4 (drop 0 c)) XOR ?ks ! (?q + 0),
              LOAD32BE (take 4 (drop 4 c)) XOR ?ks ! (?q + 1))"
  obtain q l1 l2 r1 r2 where
    d: "camelliaDecryptRounds ?ks (cam_nr ctx) (?q, ?c0) = (q, (l1, l2, r1, r2))"
    by (metis prod.exhaust)
  from nr have q: "q = 4"
    using camellia_rounds_18(3) [of ?ks ?c0] camellia_rounds_24(3) [of ?ks ?c0] d by auto
  from nr have rt: "camelliaEncryptRounds ?ks (cam_nr ctx) (4, (l1, l2, r1, r2)) = (?q, ?c0)"
    using camellia_rounds_18(4) [of ?ks ?c0] camellia_rounds_24(4) [of ?ks ?c0] d q by auto
  have dec: "snd (camelliaDecryptBlock ctx c) =
           STORE32BE (l1 XOR ?ks ! 0) @ STORE32BE (l2 XOR ?ks ! 1) @
           STORE32BE (r1 XOR ?ks ! 2) @ STORE32BE (r2 XOR ?ks ! 3)"
    using d unfolding q by (rule camelliaDecryptBlock_eq)
  have "snd (camelliaEncryptBlock ctx (snd (camelliaDecryptBlock ctx c))) =
           STORE32BE (fst (snd (snd ?c0)) XOR ?ks ! (?q + 0)) @
           STORE32BE (snd (snd (snd ?c0)) XOR ?ks ! (?q + 1)) @
           STORE32BE (fst ?c0 XOR ?ks ! (?q + 2)) @
           STORE32BE (fst (snd ?c0) XOR ?ks ! (?q + 3))"
    unfolding dec
    by (rule camelliaEncryptBlock_eq)
       (simp only: camellia_output_words xor_twice32 rt fst_conv snd_conv)
  also have "\<dots> = c"
    by (simp only: fst_conv snd_conv xor_twice32 camellia_input_bytes [OF len])
  finally show ?thesis .
qed



section \<open>Camellia: initialisation\<close>

lemma camelliaInit_reject:
  "length key \<noteq> 16 \<Longrightarrow> length key \<noteq> 24 \<Longrightarrow> length key \<noteq> 32 \<Longrightarrow>
   camelliaInit ctx key = (ERROR_INVALID_KEY_LENGTH, ctx)"
  by (simp add: camelliaInit_def)

lemma camelliaInitSchedule_result:
  "\<exists>k ks. camelliaInitSchedule ctx key = (NO_ERROR, ctx\<lparr>cam_k := k, cam_ks := ks\<rparr>)"
  unfolding camelliaInitSchedule_def Let_def by blast

lemma camelliaInit_accept:
  assumes "length key = 16 \<or> length key = 24 \<or> length key = 32"
  shows "\<exists>ctx'. camelliaInit ctx key = (NO_ERROR, ctx') \<and> (cam_nr ctx' = 18 \<or> cam_nr ctx' = 24)"
proof (cases "length key = 16")
  case True
  from camelliaInitSchedule_result [of "ctx\<lparr>cam_nr := 18\<rparr>" key] obtain k ks where
    "camelliaInitSchedule (ctx\<lparr>cam_nr := 18\<rparr>) key =
       (NO_ERROR, ctx\<lparr>cam_nr := 18, cam_k := k, cam_ks := ks\<rparr>)"
    by auto
  with True show ?thesis by (simp add: camelliaInit_def)
next
  case False
  from camelliaInitSchedule_result [of "ctx\<lparr>cam_nr := 24\<rparr>" key] obtain k ks where
    "camelliaInitSchedule (ctx\<lparr>cam_nr := 24\<rparr>) key =
       (NO_ERROR, ctx\<lparr>cam_nr := 24, cam_k := k, cam_ks := ks\<rparr>)"
    by auto
  with False assms show ?thesis by (simp add: camelliaInit_def)
qed

section \<open>The claims about both ciphers\<close>

text \<open>
  Claim C1. For every key of 16, 24 or 32 bytes and every block of sixteen bytes,
  under the context that the initialiser builds from the key, decrypting the
  encryption of the block returns the block, and encrypting its decryption returns it
  too. This holds for \<open>aesEncryptBlock\<close> and \<open>aesDecryptBlock\<close> and for
  \<open>camelliaEncryptBlock\<close> and \<open>camelliaDecryptBlock\<close>. The contexts handed to the
  initialisers have arrays of the declared sizes.
\<close>

theorem block_round_trip:
  assumes "length key = 16 \<or> length key = 24 \<or> length key = 32"
    and "length (aes_w actx0) = 60"
    and "length (cam_k cctx0) = 16" and "length (cam_ks cctx0) = 68"
    and "length p = 16" and "length c = 16"
  shows "(\<exists>ctx. aesInit actx0 key = Some (NO_ERROR, ctx) \<and>
            snd (aesDecryptBlock ctx (snd (aesEncryptBlock ctx p))) = p \<and>
            snd (aesEncryptBlock ctx (snd (aesDecryptBlock ctx c))) = c) \<and>
         (\<exists>ctx. camelliaInit cctx0 key = (NO_ERROR, ctx) \<and>
            snd (camelliaDecryptBlock ctx (snd (camelliaEncryptBlock ctx p))) = p \<and>
            snd (camelliaEncryptBlock ctx (snd (camelliaDecryptBlock ctx c))) = c)"
proof
  from aesInit_schedule [OF assms(1,2)] obtain ctx where
    i: "aesInit actx0 key = Some (NO_ERROR, ctx)"
    and n: "aes_nr ctx = (if length key = 16 then 10 else if length key = 24 then 12 else 14)"
    by blast
  from n have n1: "1 \<le> aes_nr ctx" and n2: "aes_nr ctx < 2 ^ 32"
    by (simp_all split: if_splits)
  from i aes_decrypt_encrypt [OF assms(5) n1 n2] aes_encrypt_decrypt [OF assms(6) n1 n2]
  show "\<exists>ctx. aesInit actx0 key = Some (NO_ERROR, ctx) \<and>
            snd (aesDecryptBlock ctx (snd (aesEncryptBlock ctx p))) = p \<and>
            snd (aesEncryptBlock ctx (snd (aesDecryptBlock ctx c))) = c"
    by blast
next
  from camelliaInit_accept [OF assms(1)] obtain ctx where
    i: "camelliaInit cctx0 key = (NO_ERROR, ctx)" and n: "cam_nr ctx = 18 \<or> cam_nr ctx = 24"
    by blast
  from i camellia_decrypt_encrypt [OF n assms(5)] camellia_encrypt_decrypt [OF n assms(6)]
  show "\<exists>ctx. camelliaInit cctx0 key = (NO_ERROR, ctx) \<and>
            snd (camelliaDecryptBlock ctx (snd (camelliaEncryptBlock ctx p))) = p \<and>
            snd (camelliaEncryptBlock ctx (snd (camelliaDecryptBlock ctx c))) = c"
    by blast
qed

theorem block_round_trip_witness:
  "(length aes_key192 = 16 \<or> length aes_key192 = 24 \<or> length aes_key192 = 32) \<and>
   length (aes_w aes_context0) = 60 \<and>
   length (cam_k camellia_context0) = 16 \<and> length (cam_ks camellia_context0) = 68 \<and>
   length aes_plain = 16 \<and> length camellia_cipher128 = 16 \<and>
   (\<exists>ctx. aesInit aes_context0 aes_key192 = Some (NO_ERROR, ctx) \<and>
      snd (aesDecryptBlock ctx (snd (aesEncryptBlock ctx aes_plain))) = aes_plain \<and>
      snd (aesEncryptBlock ctx (snd (aesDecryptBlock ctx camellia_cipher128))) = camellia_cipher128) \<and>
   (\<exists>ctx. camelliaInit camellia_context0 aes_key192 = (NO_ERROR, ctx) \<and>
      snd (camelliaDecryptBlock ctx (snd (camelliaEncryptBlock ctx aes_plain))) = aes_plain \<and>
      snd (camelliaEncryptBlock ctx (snd (camelliaDecryptBlock ctx camellia_cipher128))) =
        camellia_cipher128)"
proof -
  have h: "length aes_key192 = 16 \<or> length aes_key192 = 24 \<or> length aes_key192 = 32"
    "length (aes_w aes_context0) = 60"
    "length (cam_k camellia_context0) = 16" "length (cam_ks camellia_context0) = 68"
    "length aes_plain = 16" "length camellia_cipher128 = 16"
    by (simp_all add: aes_key192_def aes_context0_def camellia_context0_def aes_plain_def
          camellia_cipher128_def)
  from h block_round_trip [OF h] show ?thesis by blast
qed

text \<open>
  Claim C3, as amended. The round macro, expanded on the left half \<open>(L1, L2)\<close>, the
  right half \<open>(R1, R2)\<close> and the key pair \<open>(k1, k2)\<close>, leaves \<open>(L1, L2)\<close> in the right
  half and \<open>(t2 XOR R1, t1 XOR R2)\<close> in the left half, where \<open>(t1, t2)\<close> is the result of
  the S-layer and then the P-layer on \<open>(L1 XOR k1, L2 XOR k2)\<close>: the first word of the
  new left half is \<open>t2 XOR R1\<close> and the second is \<open>t1 XOR R2\<close>.
\<close>

theorem CAMELLIA_ROUND_result:
  "CAMELLIA_ROUND (L1, L2, R1, R2) k1 k2 =
     (snd (CAMELLIA_P (CAMELLIA_S (L1 XOR k1, L2 XOR k2))) XOR R1,
      fst (CAMELLIA_P (CAMELLIA_S (L1 XOR k1, L2 XOR k2))) XOR R2,
      L1, L2)"
  by (rule CAMELLIA_ROUND_eq)

text \<open>
  The claim as the specification words it, with \<open>t2 XOR R2\<close> as the first word of the new
  left half, fails for the all-zero input with \<open>R2 = 1\<close>.
\<close>

theorem CAMELLIA_ROUND_spec_counterexample:
  "fst (CAMELLIA_ROUND (0, 0, 0, 1) 0 0) \<noteq> snd (CAMELLIA_P (CAMELLIA_S (0 XOR 0, 0 XOR 0))) XOR 1"
proof -
  have "x \<noteq> x XOR 1" for x :: uint32_t
  proof
    assume "x = x XOR 1"
    then have "x XOR x = x XOR (x XOR 1)" by simp
    then show False by (simp add: xor_cancel32)
  qed
  then show ?thesis by (simp add: CAMELLIA_ROUND_eq)
qed



section \<open>Camellia: the key material after the initial load\<close>

lemma betoh32_NOT: "betoh32 (NOT x) = NOT (betoh32 x)"
  unfolding betoh32_def LOAD32BE_def store32h_def
  apply simp
  apply (rule bit_word_eqI)
  subgoal for n
    by (cases "n < 8"; cases "n < 16"; cases "n < 24") (auto simp add: bit_simps not_less)
  done

lemma length_camellia_memcpy:
  "n \<le> 16 \<Longrightarrow> length (memcpy_words (replicate 16 0) key n) = 16"
  by (simp add: memcpy_words_def)

lemma camelliaConvert_fold16:
  "fold camelliaConvert [0..<4]
     [a0, a1, a2, a3, a4, a5, a6, a7, a8, a9, a10, a11, a12, a13, a14, a15] =
   [betoh32 a0, betoh32 a1, betoh32 a2, betoh32 a3,
    betoh32 a4, betoh32 a5, betoh32 a6, betoh32 a7,
    a8, a9, a10, a11,
    betoh32 a0 XOR betoh32 a4, betoh32 a1 XOR betoh32 a5,
    betoh32 a2 XOR betoh32 a6, betoh32 a3 XOR betoh32 a7]"
  by (simp add: upt_0_4 camelliaConvert_def KL_def KR_def KB_def)

lemma camelliaLoadKey_banks:
  assumes "length key \<le> 64"
  shows "\<forall>i<4. camelliaLoadKey key ! (KB + i) =
           camelliaLoadKey key ! (KL + i) XOR camelliaLoadKey key ! (KR + i)"
    and "length key = 24 \<longrightarrow>
           camelliaLoadKey key ! (KR + 2) = NOT (camelliaLoadKey key ! (KR + 0)) \<and>
           camelliaLoadKey key ! (KR + 3) = NOT (camelliaLoadKey key ! (KR + 1))"
proof -
  from assms have "length key div 4 \<le> 16" by simp
  then have "length (memcpy_words (replicate 16 0) key (length key div 4)) = 16"
    by (rule length_camellia_memcpy)
  from list16 [OF this] obtain a0 a1 a2 a3 a4 a5 a6 a7 a8 a9 a10 a11 a12 a13 a14 a15
    where m: "memcpy_words (replicate 16 0) key (length key div 4) =
      [a0, a1, a2, a3, a4, a5, a6, a7, a8, a9, a10, a11, a12, a13, a14, a15]"
    by blast
  have all4: "(\<forall>i<4. P i) = (P 0 \<and> P 1 \<and> P 2 \<and> P (3 :: nat))" for P
    by (simp add: numeral_eq_Suc All_less_Suc) auto
  show "\<forall>i<4. camelliaLoadKey key ! (KB + i) =
           camelliaLoadKey key ! (KL + i) XOR camelliaLoadKey key ! (KR + i)"
    unfolding camelliaLoadKey_def Let_def m all4
    by (simp add: camelliaConvert_fold16 KL_def KR_def KB_def)
  show "length key = 24 \<longrightarrow>
           camelliaLoadKey key ! (KR + 2) = NOT (camelliaLoadKey key ! (KR + 0)) \<and>
           camelliaLoadKey key ! (KR + 3) = NOT (camelliaLoadKey key ! (KR + 1))"
    unfolding camelliaLoadKey_def Let_def m
    by (simp add: camelliaConvert_fold16 KL_def KR_def KB_def betoh32_NOT)
qed

lemma camelliaInitSchedule_uses_camelliaLoadKey:
  "cam_k (snd (camelliaInitSchedule ctx key)) = fold camelliaKeyRound [0..<6] (camelliaLoadKey key)"
  by (simp add: camelliaInitSchedule_def Let_def)

text \<open>
  Claim C8. \<open>camelliaLoadKey\<close> is the state of \<open>k\<close> in \<open>camelliaInit\<close> after the key is
  loaded and converted and before the six rounds with the sigma constants. For a key of
  16, 24 or 32 bytes it satisfies \<open>KB[i] = KL[i] XOR KR[i]\<close> for \<open>i\<close> from 0 to 3, and
  for a key of 24 bytes \<open>KR[2]\<close> and \<open>KR[3]\<close> are the complements of \<open>KR[0]\<close> and
  \<open>KR[1]\<close>: the complement, taken before the conversion from big-endian order, commutes
  with that conversion.
\<close>

theorem camelliaLoadKey_invariants:
  assumes "length key = 16 \<or> length key = 24 \<or> length key = 32"
  shows "(\<forall>i<4. camelliaLoadKey key ! (KB + i) =
            camelliaLoadKey key ! (KL + i) XOR camelliaLoadKey key ! (KR + i)) \<and>
         (length key = 24 \<longrightarrow>
            camelliaLoadKey key ! (KR + 2) = NOT (camelliaLoadKey key ! (KR + 0)) \<and>
            camelliaLoadKey key ! (KR + 3) = NOT (camelliaLoadKey key ! (KR + 1))) \<and>
         betoh32 (NOT x) = NOT (betoh32 x) \<and>
         cam_k (snd (camelliaInit ctx key)) = fold camelliaKeyRound [0..<6] (camelliaLoadKey key)"
proof -
  from assms have "length key \<le> 64" by auto
  note b = camelliaLoadKey_banks [OF this]
  from assms have "cam_k (snd (camelliaInit ctx key)) =
      fold camelliaKeyRound [0..<6] (camelliaLoadKey key)"
    by (auto simp add: camelliaInit_def camelliaInitSchedule_uses_camelliaLoadKey)
  with b betoh32_NOT show ?thesis by blast
qed

theorem camelliaLoadKey_invariants_witness:
  "(length camellia_key192 = 16 \<or> length camellia_key192 = 24 \<or> length camellia_key192 = 32) \<and>
   (0 :: nat) < 4 \<and>
   camelliaLoadKey camellia_key192 ! (KB + 0) =
     camelliaLoadKey camellia_key192 ! (KL + 0) XOR camelliaLoadKey camellia_key192 ! (KR + 0) \<and>
   length camellia_key192 = 24 \<and>
   camelliaLoadKey camellia_key192 ! (KR + 2) = NOT (camelliaLoadKey camellia_key192 ! (KR + 0)) \<and>
   camelliaLoadKey camellia_key192 ! (KR + 3) = NOT (camelliaLoadKey camellia_key192 ! (KR + 1)) \<and>
   betoh32 (NOT 1) = NOT (betoh32 1) \<and>
   cam_k (snd (camelliaInit camellia_context0 camellia_key192)) =
     fold camelliaKeyRound [0..<6] (camelliaLoadKey camellia_key192)"
proof -
  have l: "length camellia_key192 = 24" by (simp add: camellia_key192_def)
  then have h: "length camellia_key192 = 16 \<or> length camellia_key192 = 24 \<or>
      length camellia_key192 = 32"
    by simp
  have z: "(0 :: nat) < 4" by simp
  from camelliaLoadKey_invariants [OF h, of 1 camellia_context0] l h z show ?thesis
    by blast
qed

text \<open>
  Claim C9. No call to a block function changes the context: each of
  \<open>aesEncryptBlock\<close>, \<open>aesDecryptBlock\<close>, \<open>camelliaEncryptBlock\<close> and
  \<open>camelliaDecryptBlock\<close> returns the context it was given, with \<open>nr\<close>, \<open>w\<close>, \<open>k\<close>
  and \<open>ks\<close> as before, for every context and every input block.
\<close>

theorem block_functions_keep_context:
  "fst (aesEncryptBlock actx input) = actx \<and> fst (aesDecryptBlock actx input) = actx \<and>
   fst (camelliaEncryptBlock cctx input) = cctx \<and> fst (camelliaDecryptBlock cctx input) = cctx"
  by (simp add: aesEncryptBlock_def aesDecryptBlock_def camelliaEncryptBlock_def
        camelliaDecryptBlock_def Let_def split_beta)

text \<open>
  Claim C4. For a key whose length is not 16, 24 or 32, \<open>aesInit\<close> and \<open>camelliaInit\<close>
  return the invalid-key-length error and the context as it was passed in. For a key
  of 16, 24 or 32 bytes both return no error (for \<open>aesInit\<close>, on a context whose array
  \<open>w\<close> has its 60 words).
\<close>

theorem init_key_length_check:
  "(length key \<noteq> 16 \<and> length key \<noteq> 24 \<and> length key \<noteq> 32 \<longrightarrow>
      aesInit actx key = Some (ERROR_INVALID_KEY_LENGTH, actx) \<and>
      camelliaInit cctx key = (ERROR_INVALID_KEY_LENGTH, cctx)) \<and>
   (length key = 16 \<or> length key = 24 \<or> length key = 32 \<longrightarrow>
      (length (aes_w actx) = 60 \<longrightarrow> (\<exists>actx'. aesInit actx key = Some (NO_ERROR, actx'))) \<and>
      fst (camelliaInit cctx key) = NO_ERROR)"
proof (intro conjI impI)
  assume "length key \<noteq> 16 \<and> length key \<noteq> 24 \<and> length key \<noteq> 32"
  then show "aesInit actx key = Some (ERROR_INVALID_KEY_LENGTH, actx)"
    and "camelliaInit cctx key = (ERROR_INVALID_KEY_LENGTH, cctx)"
    by (simp_all add: aesInit_reject camelliaInit_reject)
next
  assume k: "length key = 16 \<or> length key = 24 \<or> length key = 32"
  from camelliaInit_accept [OF k, of cctx] show "fst (camelliaInit cctx key) = NO_ERROR"
    by auto
  assume "length (aes_w actx) = 60"
  from aesInit_schedule [OF k this] show "\<exists>actx'. aesInit actx key = Some (NO_ERROR, actx')"
    by blast
qed

theorem init_key_length_check_witness:
  "length ([] :: uint8_t list) \<noteq> 16 \<and> length ([] :: uint8_t list) \<noteq> 24 \<and>
   length ([] :: uint8_t list) \<noteq> 32 \<and>
   aesInit aes_context0 [] = Some (ERROR_INVALID_KEY_LENGTH, aes_context0) \<and>
   camelliaInit camellia_context0 [] = (ERROR_INVALID_KEY_LENGTH, camellia_context0) \<and>
   (length aes_key256 = 16 \<or> length aes_key256 = 24 \<or> length aes_key256 = 32) \<and>
   length (aes_w aes_context0) = 60 \<and>
   (\<exists>actx'. aesInit aes_context0 aes_key256 = Some (NO_ERROR, actx')) \<and>
   fst (camelliaInit camellia_context0 aes_key256) = NO_ERROR"
proof -
  have a: "length ([] :: uint8_t list) \<noteq> 16 \<and> length ([] :: uint8_t list) \<noteq> 24 \<and>
      length ([] :: uint8_t list) \<noteq> 32"
    by simp
  have b: "length aes_key256 = 16 \<or> length aes_key256 = 24 \<or> length aes_key256 = 32"
    by (simp add: aes_key256_def)
  have c: "length (aes_w aes_context0) = 60"
    by (simp add: aes_context0_def)
  from init_key_length_check [of "[]" aes_context0 camellia_context0] a
  have 1: "aesInit aes_context0 [] = Some (ERROR_INVALID_KEY_LENGTH, aes_context0) \<and>
      camelliaInit camellia_context0 [] = (ERROR_INVALID_KEY_LENGTH, camellia_context0)"
    by blast
  from init_key_length_check [of aes_key256 aes_context0 camellia_context0] b c
  have 2: "(\<exists>actx'. aesInit aes_context0 aes_key256 = Some (NO_ERROR, actx')) \<and>
      fst (camelliaInit camellia_context0 aes_key256) = NO_ERROR"
    by blast
  from a b c 1 2 show ?thesis by blast
qed



section \<open>Camellia: the encryption schedule\<close>

lemma camelliaSchedule_18:
  "camelliaSchedule 18 =
     [PreWhitening, Round, Round, Round, Round, Round, Round, FL_pair, Round, Round,
     Round, Round, Round, Round, FL_pair, Round, Round, Round, Round, Round, Round,
     PostWhitening]"
  by code_simp

lemma camelliaSchedule_24:
  "camelliaSchedule 24 =
     [PreWhitening, Round, Round, Round, Round, Round, Round, FL_pair, Round, Round,
     Round, Round, Round, Round, FL_pair, Round, Round, Round, Round, Round, Round,
     FL_pair, Round, Round, Round, Round, Round, Round, PostWhitening]"
  by code_simp

lemma camelliaApplyOp_FL_pair: "camelliaApplyOp ks FL_pair p s = camelliaEncFL ks p s"
  by (cases s) (simp add: camelliaEncFL_def)

lemma camelliaEncryptRounds_18_ops:
  "camelliaEncryptRounds ks 18 (4, s) =
     camelliaRun ks
       [Round, Round, Round, Round, Round, Round, FL_pair, Round, Round, Round, Round,
       Round, Round, FL_pair, Round, Round, Round, Round, Round, Round] (4, s)"
  by (simp add: camellia_unroll camelliaApplyOp_FL_pair)

lemma camelliaEncryptRounds_24_ops:
  "camelliaEncryptRounds ks 24 (4, s) =
     camelliaRun ks
       [Round, Round, Round, Round, Round, Round, FL_pair, Round, Round, Round, Round,
       Round, Round, FL_pair, Round, Round, Round, Round, Round, Round, FL_pair, Round,
       Round, Round, Round, Round, Round] (4, s)"
  by (simp add: camellia_unroll camelliaApplyOp_FL_pair)

lemma camelliaRun_append:
  "camelliaRun ks (xs @ ys) ps = camelliaRun ks ys (camelliaRun ks xs ps)"
  by (induction xs arbitrary: ps) simp_all

text \<open>
  The block function is the whitening of the loaded block with the first four subkey
  words, the round loop from offset 4, and the whitening with the four words at the
  offset where the loop stops.
\<close>

lemma camelliaEncryptBlock_ops:
  "snd (camelliaEncryptBlock ctx input) =
     camelliaStoreBlock (snd (camelliaRun (cam_ks ctx) [PostWhitening]
       (camelliaEncryptRounds (cam_ks ctx) (cam_nr ctx)
          (camelliaRun (cam_ks ctx) [PreWhitening] (0, camelliaLoadBlock input)))))"
proof -
  let ?ks = "cam_ks ctx"
  let ?s0 = "(LOAD32BE (take 4 (drop 0 input)) XOR ?ks ! 0,
              LOAD32BE (take 4 (drop 4 input)) XOR ?ks ! 1,
              LOAD32BE (take 4 (drop 8 input)) XOR ?ks ! 2,
              LOAD32BE (take 4 (drop 12 input)) XOR ?ks ! 3)"
  obtain q a b c d where e: "camelliaEncryptRounds ?ks (cam_nr ctx) (4, ?s0) = (q, (a, b, c, d))"
    by (metis prod.exhaust)
  have pre: "camelliaRun ?ks [PreWhitening] (0, camelliaLoadBlock input) = (4, ?s0)"
    by (simp add: camelliaLoadBlock_def numeral_2_eq_2 numeral_3_eq_3)
  show ?thesis
    unfolding pre e camelliaEncryptBlock_eq [OF e]
    by (simp add: camelliaStoreBlock_def)
qed

text \<open>
  Claim C7. For \<open>nr = 18\<close> and \<open>nr = 24\<close>, \<open>camelliaEncryptBlock\<close> carries out the
  schedule of the specification from offset 0 of \<open>ks\<close>: its round loop, entered at
  offset 4 behind the leading whitening words, is the rounds of the schedule with FL
  and inverse FL exactly after rounds 6 and 12 (\<open>nr = 18\<close>) or 6, 12 and 18
  (\<open>nr = 24\<close>) and never after the last round. Each round reads two subkey words,
  each FL and inverse FL pair four more, each whitening four; the offset behind the
  trailing whitening words, the number of subkey words read, is 52 for \<open>nr = 18\<close> and
  68 for \<open>nr = 24\<close>.
\<close>

theorem camelliaEncrypt_FL_schedule:
  assumes "cam_nr ctx = 18 \<or> cam_nr ctx = 24"
  shows "snd (camelliaEncryptBlock ctx input) =
           camelliaStoreBlock (snd (camelliaRun (cam_ks ctx) (camelliaSchedule (cam_nr ctx))
             (0, camelliaLoadBlock input))) \<and>
         fst (camelliaRun (cam_ks ctx) (camelliaSchedule (cam_nr ctx)) (0, camelliaLoadBlock input)) =
           (if cam_nr ctx = 18 then 52 else 68) \<and>
         sum_list (map camellia_op_words (camelliaSchedule (cam_nr ctx))) =
           (if cam_nr ctx = 18 then 52 else 68) \<and>
         camelliaEncryptRounds (cam_ks ctx) (cam_nr ctx) (4, s) =
           camelliaRun (cam_ks ctx) (butlast (tl (camelliaSchedule (cam_nr ctx)))) (4, s) \<and>
         fst (camelliaEncryptRounds (cam_ks ctx) (cam_nr ctx) (4, s)) =
           (if cam_nr ctx = 18 then 48 else 64) \<and>
         camelliaSchedule (cam_nr ctx) =
           (if cam_nr ctx = 18
            then [PreWhitening, Round, Round, Round, Round, Round, Round, FL_pair, Round,
                 Round, Round, Round, Round, Round, FL_pair, Round, Round, Round, Round,
                 Round, Round, PostWhitening]
            else [PreWhitening, Round, Round, Round, Round, Round, Round, FL_pair, Round,
                 Round, Round, Round, Round, Round, FL_pair, Round, Round, Round, Round,
                 Round, Round, FL_pair, Round, Round, Round, Round, Round, Round,
                 PostWhitening])"
proof -
  let ?ks = "cam_ks ctx" and ?n = "cam_nr ctx"
  let ?mid = "butlast (tl (camelliaSchedule ?n))"
  have sched: "camelliaSchedule ?n =
           (if cam_nr ctx = 18
            then [PreWhitening, Round, Round, Round, Round, Round, Round, FL_pair, Round,
                 Round, Round, Round, Round, Round, FL_pair, Round, Round, Round, Round,
                 Round, Round, PostWhitening]
            else [PreWhitening, Round, Round, Round, Round, Round, Round, FL_pair, Round,
                 Round, Round, Round, Round, Round, FL_pair, Round, Round, Round, Round,
                 Round, Round, FL_pair, Round, Round, Round, Round, Round, Round,
                 PostWhitening])"
    using assms by (auto simp add: camelliaSchedule_18 camelliaSchedule_24)
  have split: "camelliaSchedule ?n = [PreWhitening] @ ?mid @ [PostWhitening]"
    using assms by (auto simp add: camelliaSchedule_18 camelliaSchedule_24)
  have loop: "camelliaEncryptRounds ?ks ?n (4, t) = camelliaRun ?ks ?mid (4, t)" for t
    using assms
    by (auto simp add: camelliaSchedule_18 camelliaSchedule_24
          simp del: camelliaRun.simps
          simp add: camelliaEncryptRounds_18_ops camelliaEncryptRounds_24_ops)
  have stop: "fst (camelliaEncryptRounds ?ks ?n (4, t)) = (if ?n = 18 then 48 else 64)" for t
    using assms camellia_rounds_18(1) [of ?ks t] camellia_rounds_24(1) [of ?ks t] by auto
  obtain t where pre: "camelliaRun ?ks [PreWhitening] (0, camelliaLoadBlock input) = (4, t)"
    by (simp add: camelliaLoadBlock_def)
  have "camelliaRun ?ks (camelliaSchedule ?n) (0, camelliaLoadBlock input) =
      camelliaRun ?ks [PostWhitening] (camelliaRun ?ks ?mid
        (camelliaRun ?ks [PreWhitening] (0, camelliaLoadBlock input)))"
    by (subst split) (simp only: camelliaRun_append)
  then have run: "camelliaRun ?ks (camelliaSchedule ?n) (0, camelliaLoadBlock input) =
      camelliaRun ?ks [PostWhitening] (camelliaEncryptRounds ?ks ?n (4, t))"
    by (simp only: pre loop)
  have block: "snd (camelliaEncryptBlock ctx input) =
           camelliaStoreBlock (snd (camelliaRun ?ks (camelliaSchedule ?n) (0, camelliaLoadBlock input)))"
    by (simp only: run camelliaEncryptBlock_ops pre)
  have total: "fst (camelliaRun ?ks (camelliaSchedule ?n) (0, camelliaLoadBlock input)) =
           (if ?n = 18 then 52 else 68)"
    unfolding run using stop [of t] by simp
  have words: "sum_list (map camellia_op_words (camelliaSchedule ?n)) = (if ?n = 18 then 52 else 68)"
    using assms by (auto simp add: camelliaSchedule_18 camelliaSchedule_24)
  from block total words loop [of s] stop [of s] sched show ?thesis by blast
qed

theorem camelliaEncrypt_FL_schedule_witness:
  "(cam_nr (camellia_context0\<lparr>cam_nr := 18\<rparr>) = 18 \<or> cam_nr (camellia_context0\<lparr>cam_nr := 18\<rparr>) = 24) \<and>
   snd (camelliaEncryptBlock (camellia_context0\<lparr>cam_nr := 18\<rparr>) camellia_plain) =
     camelliaStoreBlock (snd (camelliaRun (cam_ks (camellia_context0\<lparr>cam_nr := 18\<rparr>))
       (camelliaSchedule (cam_nr (camellia_context0\<lparr>cam_nr := 18\<rparr>)))
       (0, camelliaLoadBlock camellia_plain))) \<and>
   fst (camelliaRun (cam_ks (camellia_context0\<lparr>cam_nr := 18\<rparr>))
       (camelliaSchedule (cam_nr (camellia_context0\<lparr>cam_nr := 18\<rparr>)))
       (0, camelliaLoadBlock camellia_plain)) = 52 \<and>
   fst (camelliaEncryptRounds (cam_ks (camellia_context0\<lparr>cam_nr := 18\<rparr>))
       (cam_nr (camellia_context0\<lparr>cam_nr := 18\<rparr>)) (4, (0, 0, 0, 0))) = 48"
proof -
  have h: "cam_nr (camellia_context0\<lparr>cam_nr := 18\<rparr>) = 18 \<or>
      cam_nr (camellia_context0\<lparr>cam_nr := 18\<rparr>) = 24"
    by simp
  have n: "cam_nr (camellia_context0\<lparr>cam_nr := 18\<rparr>) = 18" by simp
  from camelliaEncrypt_FL_schedule [OF h, of camellia_plain "(0, 0, 0, 0)"]
  show ?thesis by simp
qed

end
